theory Spec2Isabelle
  imports Main "HOL-Library.Sublist" "HOL-Library.Multiset" "HOL-Library.Char_ord"
    "HOL-Library.List_Lexorder"
begin

section \<open>The module registry helpers of \<^verbatim>\<open>src/utils/registry.ts\<close>\<close>

text \<open>
  A shallow embedding of \<^verbatim>\<open>createRepoUrl\<close>, \<^verbatim>\<open>createBranchtagUrls\<close>,
  \<^verbatim>\<open>transformBranchtags\<close>, \<^verbatim>\<open>fetchModuleBranchtags\<close>, \<^verbatim>\<open>fetchModuleMetadata\<close> and
  \<^verbatim>\<open>getContentType\<close>.

  Conventions of the embedding:
  \<^item> A JavaScript string is a \<open>string\<close>; one \<open>char\<close> is one code unit. Code units above
    255 (among them U+2028 and U+2029, which the regular expression dot also refuses) are
    outside the model.
  \<^item> A \<^verbatim>\<open>throw\<close>, a rejected promise and a failing builtin are \<open>Inl\<close> of an \<open>error\<close>; a
    normal return is \<open>Inr\<close>.
  \<^item> Every \<^verbatim>\<open>await\<close> is sequential, so the network is a function of the number of the
    request (how many requests were made before it), its URL and its headers; the functions
    that make requests take the number of their first request and return the number
    of the next one.
\<close>

subsection \<open>Errors\<close>

datatype error =
    TypeError            \<comment> \<open>raised by the runtime: property of null, not iterable, not a function\<close>
  | InvalidModuleType    \<comment> \<open>\<^verbatim>\<open>new Error("invalid module type")\<close>\<close>
  | NetworkError         \<comment> \<open>\<^verbatim>\<open>fetch\<close> rejected\<close>
  | SyntaxError          \<comment> \<open>\<^verbatim>\<open>resp.json()\<close> rejected: the body is not JSON\<close>

definition thenE :: "error + 'a \<Rightarrow> ('a \<Rightarrow> error + 'b) \<Rightarrow> error + 'b" where
  "thenE m f = (case m of Inl e \<Rightarrow> Inl e | Inr x \<Rightarrow> f x)"

fun mapE :: "('a \<Rightarrow> error + 'b) \<Rightarrow> 'a list \<Rightarrow> error + 'b list" where
  "mapE f [] = Inr []"
| "mapE f (x # xs) =
     (case f x of
        Inl e \<Rightarrow> Inl e
      | Inr y \<Rightarrow> (case mapE f xs of Inl e \<Rightarrow> Inl e | Inr ys \<Rightarrow> Inr (y # ys)))"

fun sequenceE :: "(error + 'a) list \<Rightarrow> error + 'a list" where
  "sequenceE [] = Inr []"
| "sequenceE (m # ms) =
     (case m of
        Inl e \<Rightarrow> Inl e
      | Inr y \<Rightarrow> (case sequenceE ms of Inl e \<Rightarrow> Inl e | Inr ys \<Rightarrow> Inr (y # ys)))"

subsection \<open>Regular expressions\<close>

text \<open>
  The fragment of JavaScript regular expressions the file uses: a literal character, a
  greedy \<^verbatim>\<open>+\<close> over a character class (or the dot), sequencing, a greedy optional group,
  a capture group and the end anchor \<^verbatim>\<open>$\<close> (no \<^verbatim>\<open>m\<close> flag: end of input only).
  \<open>backtrack r (s, g)\<close> lists every way \<open>r\<close> can match a prefix of the remaining input
  \<open>s\<close>, as the remaining input and the captures afterwards, in the order a backtracking
  matcher tries them; the head is the match the engine reports.
\<close>

datatype regex =
    Lit char
  | Plus "char \<Rightarrow> bool"
  | Cat regex regex
  | Opt regex
  | Cap nat regex
  | Eos

type_synonym mstate = "string \<times> (nat \<rightharpoonup> string)"

fun backtrack :: "regex \<Rightarrow> mstate \<Rightarrow> mstate list" where
  "backtrack (Lit c) (s, g) = (case s of [] \<Rightarrow> [] | x # t \<Rightarrow> if x = c then [(t, g)] else [])"
| "backtrack (Plus p) (s, g) =
     map (\<lambda>k. (drop k s, g)) (rev [1..<Suc (length (takeWhile p s))])"
| "backtrack (Cat a b) st = concat (map (backtrack b) (backtrack a st))"
| "backtrack (Opt a) st = backtrack a st @ [st]"
| "backtrack (Cap i a) (s, g) =
     map (\<lambda>(s', g'). (s', g'(i \<mapsto> take (length s - length s') s))) (backtrack a (s, g))"
| "backtrack Eos (s, g) = (if s = [] then [(s, g)] else [])"

text \<open>
  \<^verbatim>\<open>RegExp.prototype.exec\<close> without the \<^verbatim>\<open>g\<close> and \<^verbatim>\<open>y\<close> flags: the match at the leftmost
  start position that has one; \<open>None\<close> is \<^verbatim>\<open>null\<close>. The result maps the number of a capture
  group to its text; a group that did not take part is unset (\<^verbatim>\<open>undefined\<close>).
\<close>

fun exec :: "regex \<Rightarrow> string \<Rightarrow> (nat \<rightharpoonup> string) option" where
  "exec r [] = (case backtrack r ([], Map.empty) of [] \<Rightarrow> None | (_, g) # _ \<Rightarrow> Some g)"
| "exec r (c # s) =
     (case backtrack r (c # s, Map.empty) of [] \<Rightarrow> exec r s | (_, g) # _ \<Rightarrow> Some g)"

text \<open>The class \<^verbatim>\<open>[0-9a-z-_]\<close>: the two ranges, the dash and the underscore.\<close>

definition identChar :: "char \<Rightarrow> bool" where
  "identChar c = (c \<in> set (''0123456789'' @ ''abcdefghijklmnopqrstuvwxyz'' @ ''-_''))"

text \<open>The dot: any code unit but a line terminator (line feed, carriage return).\<close>

definition dotChar :: "char \<Rightarrow> bool" where
  "dotChar c = (c \<noteq> CHR 0x0A \<and> c \<noteq> CHR 0x0D)"

text \<open>\<^verbatim>\<open>/([0-9a-z-_]+)(?:@(.+))?/\<close>\<close>

definition moduleRegex :: regex where
  "moduleRegex = Cat (Cap 1 (Plus identChar)) (Opt (Cat (Lit CHR ''@'') (Cap 2 (Plus dotChar))))"

text \<open>\<^verbatim>\<open>/.+\.(.+)$/\<close>\<close>

definition extRegex :: regex where
  "extRegex = Cat (Plus dotChar) (Cat (Lit CHR ''.'') (Cat (Cap 1 (Plus dotChar)) Eos))"

subsection \<open>JavaScript values\<close>

text \<open>
  What \<^verbatim>\<open>resp.json()\<close> can produce, and \<^verbatim>\<open>undefined\<close>. A number is kept as its decimal
  rendering (\<^verbatim>\<open>Number.prototype.toString\<close>), the only thing the program observes of a number
  besides its truthiness. An object is the list of its own properties.
\<close>

datatype jsval =
    JUndefined
  | JNull
  | JBool bool
  | JNum string
  | JStr string
  | JArr "jsval list"
  | JObj "(string \<times> jsval) list"

text \<open>
  Reading a property \<open>k\<close> off a value, for the property names the program reads
  (\<^verbatim>\<open>name\<close>, \<^verbatim>\<open>Branches\<close>, \<^verbatim>\<open>Tags\<close>, \<^verbatim>\<open>default_branch\<close>, \<^verbatim>\<open>type\<close>, \<^verbatim>\<open>download_url\<close>,
  \<^verbatim>\<open>encoding\<close>, \<^verbatim>\<open>content\<close>): none of them is a property of a builtin prototype, so only an
  object's own properties can answer; \<^verbatim>\<open>null\<close> and \<^verbatim>\<open>undefined\<close> raise.
\<close>

fun getProp :: "jsval \<Rightarrow> string \<Rightarrow> error + jsval" where
  "getProp JUndefined k = Inl TypeError"
| "getProp JNull k = Inl TypeError"
| "getProp (JObj kvs) k = (case map_of kvs k of None \<Rightarrow> Inr JUndefined | Some v \<Rightarrow> Inr v)"
| "getProp v k = Inr JUndefined"

fun truthy :: "jsval \<Rightarrow> bool" where
  "truthy JUndefined = False"
| "truthy JNull = False"
| "truthy (JBool b) = b"
| "truthy (JNum n) = (n \<noteq> ''0'' \<and> n \<noteq> ''NaN'')"
| "truthy (JStr s) = (s \<noteq> [])"
| "truthy (JArr xs) = True"
| "truthy (JObj kvs) = True"

text \<open>\<^verbatim>\<open>Array.prototype.join\<close> on an array of strings.\<close>

fun join :: "string \<Rightarrow> string list \<Rightarrow> string" where
  "join sep [] = []"
| "join sep [x] = x"
| "join sep (x # y # ys) = x @ sep @ join sep (y # ys)"

text \<open>
  \<^verbatim>\<open>ToString\<close>, as a template literal and \<^verbatim>\<open>fetch\<close> apply it. An array joins its elements
  with commas (\<^verbatim>\<open>null\<close> and \<^verbatim>\<open>undefined\<close> elements as the empty string). A parsed object
  renders as \<^verbatim>\<open>[object Object]\<close>, unless it has an own property \<^verbatim>\<open>toString\<close>, which
  cannot be called.
\<close>

fun toStringJS :: "jsval \<Rightarrow> error + string" where
  "toStringJS JUndefined = Inr ''undefined''"
| "toStringJS JNull = Inr ''null''"
| "toStringJS (JBool b) = Inr (if b then ''true'' else ''false'')"
| "toStringJS (JNum n) = Inr n"
| "toStringJS (JStr s) = Inr s"
| "toStringJS (JArr xs) =
     (case sequenceE (map (\<lambda>x. if x = JUndefined \<or> x = JNull then Inr [] else toStringJS x) xs) of
        Inl e \<Rightarrow> Inl e
      | Inr ss \<Rightarrow> Inr (join '','' ss))"
| "toStringJS (JObj kvs) =
     (if map_of kvs ''toString'' = None then Inr ''[object Object]'' else Inl TypeError)"

text \<open>The spread \<^verbatim>\<open>...v\<close> in an array literal: an array or a string is iterable.\<close>

fun spread :: "jsval \<Rightarrow> error + jsval list" where
  "spread (JArr xs) = Inr xs"
| "spread (JStr s) = Inr (map (\<lambda>c. JStr [c]) s)"
| "spread v = Inl TypeError"

text \<open>\<^verbatim>\<open>String.prototype.toLowerCase\<close> on code units up to 255.\<close>

definition toLowerChar :: "char \<Rightarrow> char" where
  "toLowerChar c =
     (let n = (of_char c :: nat)
      in if (65 \<le> n \<and> n \<le> 90) \<or> (192 \<le> n \<and> n \<le> 222 \<and> n \<noteq> 215) then char_of (n + 32) else c)"

definition toLowerCase :: "string \<Rightarrow> string" where
  "toLowerCase s = map toLowerChar s"

subsection \<open>Data model and collaborators\<close>

text \<open>
  Modelled from the spec: the type declarations of \<^verbatim>\<open>@/types\<close> are not among the sources.
  A module reference is \<^verbatim>\<open>{ type, org, repo }\<close>; \<^verbatim>\<open>DenoModule\<close> adds \<^verbatim>\<open>name\<close> and \<^verbatim>\<open>repoUrl\<close>.
  The provider type is a string: the code has a \<^verbatim>\<open>default\<close> branch for every other value.
\<close>

record moduleRef =
  type :: string
  org :: string
  repo :: string

record denoModule = moduleRef +
  name :: string
  repoUrl :: string

type_synonym headers = "(string \<times> string) list"

text \<open>
  A response of \<^verbatim>\<open>fetch\<close>: \<^verbatim>\<open>resp.ok\<close>, what \<^verbatim>\<open>resp.json()\<close> resolves to (\<open>None\<close>: it rejects)
  and what \<^verbatim>\<open>resp.text()\<close> resolves to.
\<close>

record response =
  resp_ok :: bool
  resp_json :: "jsval option"
  resp_text :: string

text \<open>
  Modelled from the spec: \<^verbatim>\<open>fetchModule\<close> of \<^verbatim>\<open>@/services/registry\<close> and \<^verbatim>\<open>getGitHubHeaders\<close>
  of \<^verbatim>\<open>@/services/github\<close> are not among the sources; the lookup answers a module
  reference or nothing, the header provider a mapping of header names to values. They are
  fields of the environment, with the runtime: \<open>fetch env k url h\<close> is the outcome of the
  request number \<open>k\<close> (\<open>None\<close>: the promise rejects), \<open>localeCompare\<close> is the host's
  collation (\<^verbatim>\<open>String.prototype.localeCompare\<close>), and \<open>bufferToString content encoding\<close> is
  \<^verbatim>\<open>Buffer.from(content, encoding).toString()\<close>.
\<close>

record env =
  fetchModule :: "string \<Rightarrow> moduleRef option"
  getGitHubHeaders :: headers
  fetch :: "nat \<Rightarrow> string \<Rightarrow> headers option \<Rightarrow> response option"
  localeCompare :: "string \<Rightarrow> string \<Rightarrow> int"
  bufferToString :: "jsval \<Rightarrow> jsval \<Rightarrow> error + jsval"

subsection \<open>URL builders\<close>

definition createRepoUrl :: "'a moduleRef_scheme \<Rightarrow> error + string" where
  "createRepoUrl m =
     (if type m = ''GitHub'' then Inr (''https://github.com/'' @ org m @ ''/'' @ repo m)
      else if type m = ''GitLab'' then Inr (''https://gitlab.com/'' @ org m @ ''/'' @ repo m)
      else Inl InvalidModuleType)"

definition createBranchtagUrls :: "'a moduleRef_scheme \<Rightarrow> error + string list" where
  "createBranchtagUrls m =
     (if type m = ''GitHub'' then
        Inr [''https://api.github.com/repos/'' @ org m @ ''/'' @ repo m @ ''/branches'',
             ''https://api.github.com/repos/'' @ org m @ ''/'' @ repo m @ ''/tags'']
      else if type m = ''GitLab'' then
        Inr [''https://gitlab.com/'' @ org m @ ''/'' @ repo m @ ''/refs'']
      else Inl InvalidModuleType)"

subsection \<open>Branches and tags\<close>

definition transformBranchtags :: "jsval \<Rightarrow> string \<Rightarrow> error + jsval list" where
  "transformBranchtags data ty =
     (if ty = ''GitHub'' then
        (case data of
           JArr xs \<Rightarrow> mapE (\<lambda>x. getProp x ''name'') xs
         | _ \<Rightarrow> Inl TypeError)
      else if ty = ''GitLab'' then
        thenE (getProp data ''Branches'') (\<lambda>b.
        thenE (spread b) (\<lambda>bs.
        thenE (getProp data ''Tags'') (\<lambda>t.
        thenE (spread t) (\<lambda>ts.
        Inr (bs @ ts)))))
      else Inl InvalidModuleType)"

text \<open>\<^verbatim>\<open>fetch(url, { headers }).then((resp) => resp.json())\<close>\<close>

definition fetchJson :: "env \<Rightarrow> nat \<Rightarrow> string \<Rightarrow> headers option \<Rightarrow> error + jsval" where
  "fetchJson env k url h =
     (case fetch env k url h of
        None \<Rightarrow> Inl NetworkError
      | Some resp \<Rightarrow> (case resp_json resp of None \<Rightarrow> Inl SyntaxError | Some data \<Rightarrow> Inr data))"

text \<open>The \<^verbatim>\<open>for\<close> loop of \<^verbatim>\<open>fetchModuleBranchtags\<close> over the URLs left, with \<open>refs\<close> so far.\<close>

fun fetchRefs ::
  "env \<Rightarrow> string \<Rightarrow> headers option \<Rightarrow> string list \<Rightarrow> jsval list \<Rightarrow> nat \<Rightarrow> error + (jsval list \<times> nat)"
where
  "fetchRefs env ty h [] refs k = Inr (refs, k)"
| "fetchRefs env ty h (url # urls) refs k =
     (case fetchJson env k url h of
        Inl e \<Rightarrow> Inl e
      | Inr data \<Rightarrow>
          (case transformBranchtags data ty of
             Inl e \<Rightarrow> Inl e
           | Inr names \<Rightarrow> fetchRefs env ty h urls (refs @ names) (Suc k)))"

definition branchtagHeaders :: "env \<Rightarrow> 'a moduleRef_scheme \<Rightarrow> headers option" where
  "branchtagHeaders env m = (if type m = ''GitHub'' then Some (getGitHubHeaders env) else None)"

definition fetchModuleBranchtags ::
  "env \<Rightarrow> 'a moduleRef_scheme \<Rightarrow> nat \<Rightarrow> error + (jsval list \<times> nat)"
where
  "fetchModuleBranchtags env m k =
     (case createBranchtagUrls m of
        Inl e \<Rightarrow> Inl e
      | Inr urls \<Rightarrow> fetchRefs env (type m) (branchtagHeaders env m) urls [] k)"

subsection \<open>Content type\<close>

definition getContentType :: "string \<Rightarrow> error + string" where
  "getContentType nm =
     (case exec extRegex nm of
        None \<Rightarrow> Inl TypeError
      | Some g \<Rightarrow>
          if g 1 = Some ''js'' then Inr ''application/javascript''
          else if g 1 = Some ''ts'' then Inr ''application/typescript''
          else Inr ''text/plain'')"

subsection \<open>Module metadata\<close>

text \<open>
  The locals of \<^verbatim>\<open>fetchModuleMetadata\<close> that its \<^verbatim>\<open>return\<close> packs into the full result.
  \<^verbatim>\<open>null\<close> is \<open>JNull\<close>, or \<open>None\<close> where the local is otherwise a list or a string. A
  breadcrumb, a two-element array in the source, is a pair.
\<close>

record resolution =
  meta :: denoModule
  branchtag :: jsval
  branchtags :: "jsval list option"
  segments :: "string list"
  breadcrumbs :: "(string \<times> string) list option"
  path :: string
  tree :: jsval
  readme :: "string option"
  content :: jsval
  sourceUrl :: jsval
  errors :: jsval

text \<open>The two objects \<^verbatim>\<open>fetchModuleMetadata\<close> returns: \<^verbatim>\<open>{ segments }\<close> and the full result.\<close>

datatype result = SegmentsOnly "string list" | Resolution resolution

text \<open>
  \<^verbatim>\<open>segments[0]\<close> as \<^verbatim>\<open>exec\<close> reads it: \<^verbatim>\<open>exec\<close> applies \<^verbatim>\<open>ToString\<close> to its argument, and
  an index past the end of an array reads \<^verbatim>\<open>undefined\<close>.
\<close>

definition segment0 :: "string list \<Rightarrow> string" where
  "segment0 segs = (case segs of [] \<Rightarrow> ''undefined'' | s # _ \<Rightarrow> s)"

text \<open>
  Lines 80 and 81: the match and its destructuring, \<^verbatim>\<open>branchtag\<close> defaulting to \<^verbatim>\<open>null\<close>.
  Destructuring \<^verbatim>\<open>null\<close> raises. Group 1 is not optional in the pattern, so a match always
  sets it (lemma \<open>exec_moduleRegex_Some\<close>) and the branch for an unset group 1 is never taken.
\<close>

definition parseSegment0 :: "string list \<Rightarrow> error + (string \<times> jsval)" where
  "parseSegment0 segs =
     (case exec moduleRegex (segment0 segs) of
        None \<Rightarrow> Inl TypeError
      | Some g \<Rightarrow>
          (case g 1 of
             None \<Rightarrow> Inl TypeError
           | Some moduleName \<Rightarrow>
               Inr (moduleName, case g 2 of None \<Rightarrow> JNull | Some b \<Rightarrow> JStr b)))"

text \<open>Lines 92 to 97: the headers of the requests of \<^verbatim>\<open>fetchModuleMetadata\<close>.\<close>

definition requestHeaders :: "env \<Rightarrow> denoModule \<Rightarrow> headers option" where
  "requestHeaders env mt = (if type mt = ''GitHub'' then Some (getGitHubHeaders env) else None)"

text \<open>Lines 99 to 110: the branchtag when segment 0 gave none.\<close>

definition resolveBranchtag :: "env \<Rightarrow> denoModule \<Rightarrow> jsval \<Rightarrow> nat \<Rightarrow> error + (jsval \<times> nat)" where
  "resolveBranchtag env mt bt k =
     (if \<not> truthy bt then
        if type mt = ''GitHub'' then
          thenE (fetchJson env k (''https://api.github.com/repos/'' @ org mt @ ''/'' @ repo mt)
                   (requestHeaders env mt)) (\<lambda>data.
          thenE (getProp data ''default_branch'') (\<lambda>b.
          Inr (b, Suc k)))
        else if type mt = ''GitLab'' then Inr (bt, k)
        else Inr (JStr ''master'', k)
      else Inr (bt, k))"

text \<open>Lines 118 to 122.\<close>

definition makeBreadcrumbs :: "string list \<Rightarrow> (string \<times> string) list" where
  "makeBreadcrumbs segs =
     (let sx = ''x'' # segs
      in map (\<lambda>i. (sx ! i, ''/'' @ join ''/'' (take (i + 1) sx))) [0..<length sx])"

text \<open>
  Lines 80 to 128: from the segments to the locals before the tree request. \<open>None\<close>: the
  lookup found no module.
\<close>

definition resolveModule ::
  "env \<Rightarrow> string list \<Rightarrow> bool \<Rightarrow> nat \<Rightarrow> error + (resolution \<times> nat) option"
where
  "resolveModule env segs isApi n =
     thenE (parseSegment0 segs) (\<lambda>(moduleName, bt0).
       case fetchModule env moduleName of
         None \<Rightarrow> Inr None
       | Some m \<Rightarrow>
           thenE (createRepoUrl m) (\<lambda>url.
             let mt = \<lparr>type = type m, org = org m, repo = repo m,
                       name = moduleName, repoUrl = url\<rparr>
             in
             thenE (resolveBranchtag env mt bt0 n) (\<lambda>(bt, k1).
             thenE (if \<not> isApi then
                      thenE (fetchModuleBranchtags env mt k1) (\<lambda>(refs, k2).
                      Inr (Some refs, Some (makeBreadcrumbs segs), k2))
                    else Inr (None, None, k1)) (\<lambda>(bts, crumbs, k2).
             Inr (Some (\<lparr>meta = mt, branchtag = bt, branchtags = bts, segments = segs,
                         breadcrumbs = crumbs, path = ''/'' @ join ''/'' (drop 1 segs),
                         tree = JNull, readme = None, content = JNull, sourceUrl = JNull,
                         errors = JNull\<rparr>, k2))))))"

text \<open>Line 131: the URL of the repository-contents request.\<close>

definition contentsUrl :: "resolution \<Rightarrow> error + string" where
  "contentsUrl r =
     thenE (toStringJS (branchtag r)) (\<lambda>b.
     Inr (''https://api.github.com/repos/'' @ org (meta r) @ ''/'' @ repo (meta r) @
          ''/contents'' @ path r @ ''?ref='' @ b))"

text \<open>
  Lines 130 to 143. The GitLab branch builds a URL and uses it for nothing; the branchtag
  there is a string or \<^verbatim>\<open>null\<close>, so building it cannot raise.
\<close>

definition fetchTree :: "env \<Rightarrow> resolution \<Rightarrow> nat \<Rightarrow> error + (resolution \<times> nat)" where
  "fetchTree env r k =
     (if type (meta r) = ''GitHub'' then
        thenE (contentsUrl r) (\<lambda>treeUrl.
          case fetch env k treeUrl (requestHeaders env (meta r)) of
            None \<Rightarrow> Inl NetworkError
          | Some resp \<Rightarrow>
              (case resp_json resp of
                 None \<Rightarrow> Inl SyntaxError
               | Some d \<Rightarrow>
                   if resp_ok resp then Inr (r\<lparr>tree := d\<rparr>, Suc k)
                   else Inr (r\<lparr>errors := d\<rparr>, Suc k)))
      else Inr (r, k))"

text \<open>
  The comparator of line 151, \<^verbatim>\<open>(a, b) => a.type.localeCompare(b.type)\<close>: the receiver
  must be a string, the argument goes through \<^verbatim>\<open>ToString\<close>.
\<close>

definition compareType :: "env \<Rightarrow> jsval \<Rightarrow> jsval \<Rightarrow> error + int" where
  "compareType env a b =
     thenE (getProp a ''type'') (\<lambda>ta.
       case ta of
         JStr s \<Rightarrow>
           thenE (getProp b ''type'') (\<lambda>tb.
           thenE (toStringJS tb) (\<lambda>t.
           Inr (localeCompare env s t)))
       | _ \<Rightarrow> Inl TypeError)"

text \<open>
  \<^verbatim>\<open>Array.prototype.sort\<close> with a comparator: a stable sort (ECMAScript 2019), here by
  insertion. An element stays in front of the elements behind it that it does not compare
  greater than. Which pairs the engine compares, and which of the two it passes first, is
  its own choice: the insertion here calls the comparator with the earlier element first,
  V8 calls it with the later element first. On a listing whose entries all have a string
  in their \<^verbatim>\<open>type\<close> field no call raises and, the comparator being consistent, every stable
  sort gives the same list; the statements about the sorted listing are about such
  listings. Where an entry has no string there, the comparator raises when that entry
  is the receiver, so whether the sort raises depends on the engine's calls, and the
  model may differ from the engine: on two entries of which only the first has a string
  type, V8 raises and the insertion here returns.
\<close>

fun insertSorted :: "('a \<Rightarrow> 'a \<Rightarrow> error + int) \<Rightarrow> 'a \<Rightarrow> 'a list \<Rightarrow> error + 'a list" where
  "insertSorted cmp x [] = Inr [x]"
| "insertSorted cmp x (y # ys) =
     (case cmp x y of
        Inl e \<Rightarrow> Inl e
      | Inr c \<Rightarrow>
          if c \<le> 0 then Inr (x # y # ys)
          else (case insertSorted cmp x ys of Inl e \<Rightarrow> Inl e | Inr zs \<Rightarrow> Inr (y # zs)))"

fun sortBy :: "('a \<Rightarrow> 'a \<Rightarrow> error + int) \<Rightarrow> 'a list \<Rightarrow> error + 'a list" where
  "sortBy cmp [] = Inr []"
| "sortBy cmp (x # xs) =
     (case sortBy cmp xs of Inl e \<Rightarrow> Inl e | Inr ys \<Rightarrow> insertSorted cmp x ys)"

text \<open>Lines 154 to 156: \<^verbatim>\<open>tree.find((t) => t.name.toLowerCase() === "readme.md")\<close>.\<close>

fun findReadme :: "jsval list \<Rightarrow> error + jsval option" where
  "findReadme [] = Inr None"
| "findReadme (t # ts) =
     (case getProp t ''name'' of
        Inl e \<Rightarrow> Inl e
      | Inr (JStr s) \<Rightarrow> if toLowerCase s = ''readme.md'' then Inr (Some t) else findReadme ts
      | Inr _ \<Rightarrow> Inl TypeError)"

text \<open>Lines 145 to 180: the listing sorted and its readme, or the file's content.\<close>

definition readTree :: "env \<Rightarrow> resolution \<Rightarrow> nat \<Rightarrow> error + resolution" where
  "readTree env r k =
     (if truthy (tree r) then
        (case tree r of
           JArr entries \<Rightarrow>
             thenE (sortBy (compareType env) entries) (\<lambda>sorted.
               let r' = r\<lparr>tree := JArr sorted\<rparr> in
               if type (meta r) = ''GitHub'' then
                 thenE (findReadme sorted) (\<lambda>found.
                   case found of
                     None \<Rightarrow> Inr r'
                   | Some file \<Rightarrow>
                       if truthy file then
                         thenE (getProp file ''download_url'') (\<lambda>u.
                         thenE (toStringJS u) (\<lambda>url.
                           case fetch env k url None of
                             None \<Rightarrow> Inl NetworkError
                           | Some resp \<Rightarrow> Inr (r'\<lparr>readme := Some (resp_text resp)\<rparr>)))
                       else Inr r')
               else Inr r')
         | file \<Rightarrow>
             if type (meta r) = ''GitHub'' then
               thenE (getProp file ''encoding'') (\<lambda>enc.
               thenE (getProp file ''content'') (\<lambda>c.
               thenE (if truthy enc then bufferToString env c enc else Inr c) (\<lambda>ct.
               thenE (getProp file ''download_url'') (\<lambda>su.
               Inr (r\<lparr>content := ct, sourceUrl := su\<rparr>)))))
             else Inr r)
      else Inr r)"

definition fetchModuleMetadata :: "env \<Rightarrow> string list \<Rightarrow> bool \<Rightarrow> nat \<Rightarrow> error + result" where
  "fetchModuleMetadata env segs isApi n =
     (case resolveModule env segs isApi n of
        Inl e \<Rightarrow> Inl e
      | Inr None \<Rightarrow> Inr (SegmentsOnly segs)
      | Inr (Some (r, k)) \<Rightarrow>
          thenE (fetchTree env r k) (\<lambda>(r', k').
          thenE (readTree env r' k') (\<lambda>r''.
          Inr (Resolution r''))))"

subsection \<open>Notions the statements below use\<close>

text \<open>
  The position \<open>k\<close> is a dot the pattern of \<^verbatim>\<open>getContentType\<close> can stop its first part at:
  at least one character follows it, and no line break does.
\<close>

definition validDot :: "string \<Rightarrow> nat \<Rightarrow> bool" where
  "validDot s k =
     (k < length s \<and> s ! k = CHR ''.'' \<and> drop (Suc k) s \<noteq> [] \<and>
      (\<forall>c\<in>set (drop (Suc k) s). dotChar c))"

text \<open>
  A name has an extension, as \<^verbatim>\<open>getContentType\<close> needs it: some dot is neither the first
  nor the last character, the character before it is no line break, and no line break
  follows it.
\<close>

definition hasExtension :: "string \<Rightarrow> bool" where
  "hasExtension nm =
     (\<exists>k\<in>{1..<length nm - 1}.
        nm ! k = CHR ''.'' \<and> dotChar (nm ! (k - 1)) \<and> (\<forall>c\<in>set (drop (Suc k) nm). dotChar c))"

text \<open>
  The branchtag the pattern of \<^verbatim>\<open>fetchModuleMetadata\<close> reads off what follows the module
  name: the characters after an \<^verbatim>\<open>@\<close> that comes first, up to a line break; none when
  there is no such \<^verbatim>\<open>@\<close> or no character after it.
\<close>

definition branchtagAfter :: "string \<Rightarrow> string option" where
  "branchtagAfter rest =
     (case rest of
        [] \<Rightarrow> None
      | c # t \<Rightarrow>
          if c = CHR ''@'' \<and> takeWhile dotChar t \<noteq> [] then Some (takeWhile dotChar t) else None)"

text \<open>
  The spec's reading of segment 0: the whole segment is an identifier of lowercase
  alphanumerics, dashes and underscores, optionally followed by \<^verbatim>\<open>@\<close> and a branchtag.
\<close>

definition spec_segmentPattern :: "string \<Rightarrow> bool" where
  "spec_segmentPattern s =
     (takeWhile identChar s \<noteq> [] \<and>
      (case dropWhile identChar s of [] \<Rightarrow> True | c # tag \<Rightarrow> c = CHR ''@'' \<and> tag \<noteq> []))"


text \<open>The \<^verbatim>\<open>type\<close> field of a tree entry that has a string there.\<close>

definition typeField :: "jsval \<Rightarrow> string" where
  "typeField e = (case getProp e ''type'' of Inr (JStr t) \<Rightarrow> t | _ \<Rightarrow> [])"


text \<open>
  The spec's breadcrumbs: one entry per non-empty prefix of \<^verbatim>\<open>["x", ...segments]\<close>, the
  label being the last segment of the prefix and the link the prefix joined by slashes
  behind a leading slash.
\<close>

definition spec_breadcrumbs :: "string list \<Rightarrow> (string \<times> string) list" where
  "spec_breadcrumbs segs =
     map (\<lambda>p. (last p, ''/'' @ join ''/'' p)) (tl (prefixes (''x'' # segs)))"

subsection \<open>Example environments\<close>

text \<open>Comparison by code units: the lexicographic order of the strings.\<close>

definition codeUnitCompare :: "string \<Rightarrow> string \<Rightarrow> int" where
  "codeUnitCompare a b = (if a < b then - 1 else if b < a then 1 else 0)"


definition exampleHeaders :: headers where
  "exampleHeaders = [(''Authorization'', ''token t0'')]"

definition exampleListing :: "jsval list" where
  "exampleListing =
     [JObj [(''name'', JStr ''mod.ts''), (''type'', JStr ''file'')],
      JObj [(''name'', JStr ''docs''), (''type'', JStr ''dir'')],
      JObj [(''name'', JStr ''README.md''), (''type'', JStr ''file''),
            (''download_url'', JStr ''https://raw.example/oak/README.md'')],
      JObj [(''name'', JStr ''examples''), (''type'', JStr ''dir'')]]"

text \<open>
  A network that answers by URL whatever the number of the request: a GitHub repository
  with the default branch \<^verbatim>\<open>main\<close>, two branches and two tags (\<^verbatim>\<open>v1\<close> is both), a listing
  at the root, a path that is not found, a path whose error body is not JSON, the readme,
  and the refs of a GitLab repository. The GitHub API wants the headers.
\<close>

definition exampleFetch :: "nat \<Rightarrow> string \<Rightarrow> headers option \<Rightarrow> response option" where
  "exampleFetch k url h =
     (if url = ''https://api.github.com/repos/oakserver/oak'' \<and> h = Some exampleHeaders then
        Some \<lparr>resp_ok = True, resp_json = Some (JObj [(''default_branch'', JStr ''main'')]),
              resp_text = []\<rparr>
      else if url = ''https://api.github.com/repos/oakserver/oak/branches''
              \<and> h = Some exampleHeaders then
        Some \<lparr>resp_ok = True,
              resp_json = Some (JArr [JObj [(''name'', JStr ''main'')], JObj [(''name'', JStr ''v1'')]]),
              resp_text = []\<rparr>
      else if url = ''https://api.github.com/repos/oakserver/oak/tags''
              \<and> h = Some exampleHeaders then
        Some \<lparr>resp_ok = True,
              resp_json = Some (JArr [JObj [(''name'', JStr ''v1'')], JObj [(''name'', JStr ''v2'')]]),
              resp_text = []\<rparr>
      else if url = ''https://api.github.com/repos/oakserver/oak/contents/?ref=main''
              \<and> h = Some exampleHeaders then
        Some \<lparr>resp_ok = True, resp_json = Some (JArr exampleListing), resp_text = []\<rparr>
      else if url = ''https://api.github.com/repos/oakserver/oak/contents/missing.ts?ref=main''
              \<and> h = Some exampleHeaders then
        Some \<lparr>resp_ok = False, resp_json = Some (JObj [(''message'', JStr ''Not Found'')]),
              resp_text = []\<rparr>
      else if url = ''https://api.github.com/repos/oakserver/oak/contents/broken.ts?ref=main''
              \<and> h = Some exampleHeaders then
        Some \<lparr>resp_ok = False, resp_json = None, resp_text = ''<html>Bad Gateway</html>''\<rparr>
      else if url = ''https://raw.example/oak/README.md'' \<and> h = None then
        Some \<lparr>resp_ok = True, resp_json = None, resp_text = ''# oak''\<rparr>
      else if url = ''https://gitlab.com/group/proj/refs'' \<and> h = None then
        Some \<lparr>resp_ok = True,
              resp_json = Some (JObj [(''Branches'', JArr [JStr ''master'']),
                                      (''Tags'', JArr [JStr ''v1''])]),
              resp_text = []\<rparr>
      else None)"

definition exampleEnv :: env where
  "exampleEnv =
     \<lparr>fetchModule = (\<lambda>nm.
        if nm = ''oak'' then Some \<lparr>type = ''GitHub'', org = ''oakserver'', repo = ''oak''\<rparr>
        else if nm = ''proj'' \<or> nm = ''foo'' then
          Some \<lparr>type = ''GitLab'', org = ''group'', repo = ''proj''\<rparr>
        else if nm = ''bucket'' then
          Some \<lparr>type = ''Bitbucket'', org = ''team'', repo = ''bucket''\<rparr>
        else None),
      getGitHubHeaders = exampleHeaders,
      fetch = exampleFetch,
      localeCompare = codeUnitCompare,
      bufferToString = (\<lambda>c enc. Inr c)\<rparr>"



text \<open>A lookup that knows one module, under the name \<^verbatim>\<open>undefined\<close>.\<close>

definition undefinedEnv :: env where
  "undefinedEnv =
     exampleEnv
       \<lparr>fetchModule := (\<lambda>nm.
          if nm = ''undefined'' then Some \<lparr>type = ''GitLab'', org = ''group'', repo = ''proj''\<rparr>
          else None)\<rparr>"

section \<open>Properties\<close>

subsection \<open>The regular expressions\<close>

lemma thenE_simps [simp]: "thenE (Inl e) f = Inl e" "thenE (Inr x) f = f x"
  by (simp_all add: thenE_def)

lemma rev_upt_from1: "0 < n \<Longrightarrow> rev [1..<Suc n] = n # rev [1..<n]"
  by simp

lemma backtrack_Plus_Nil: "takeWhile p s = [] \<Longrightarrow> backtrack (Plus p) (s, g) = []"
  by simp

lemma backtrack_Plus_Cons:
  "takeWhile p s \<noteq> [] \<Longrightarrow>
   backtrack (Plus p) (s, g) =
     (dropWhile p s, g) # map (\<lambda>k. (drop k s, g)) (rev [1..<length (takeWhile p s)])"
  by (cases "takeWhile p s") (simp_all add: dropWhile_eq_drop)

lemma take_length_dropWhile: "take (length s - length (dropWhile p s)) s = takeWhile p s"
proof -
  have "length s = length (takeWhile p s) + length (dropWhile p s)"
    by (metis length_append takeWhile_dropWhile_id)
  then have "length s - length (dropWhile p s) = length (takeWhile p s)" by simp
  then show ?thesis by (metis takeWhile_eq_take)
qed

lemma backtrack_Cap_Plus_Nil: "takeWhile p s = [] \<Longrightarrow> backtrack (Cap i (Plus p)) (s, g) = []"
  by simp

lemma backtrack_Cap_Plus_Cons:
  "takeWhile p s \<noteq> [] \<Longrightarrow>
   \<exists>rest. backtrack (Cap i (Plus p)) (s, g) = (dropWhile p s, g(i \<mapsto> takeWhile p s)) # rest"
  using backtrack_Plus_Cons [of p s g] by (simp add: take_length_dropWhile del: backtrack.simps(2))

lemma backtrack_tag:
  "\<exists>st rest. backtrack (Opt (Cat (Lit CHR ''@'') (Cap 2 (Plus dotChar)))) (s, g) = st # rest \<and>
     snd st (2::nat) = (case branchtagAfter s of None \<Rightarrow> g 2 | Some t \<Rightarrow> Some t) \<and> snd st (1::nat) = g 1"
proof (cases s)
  case Nil
  then show ?thesis by (simp add: branchtagAfter_def)
next
  case (Cons c t)
  show ?thesis
  proof (cases "c = CHR ''@'' \<and> takeWhile dotChar t \<noteq> []")
    case True
    then obtain rest where "backtrack (Cap 2 (Plus dotChar)) (t, g) = (dropWhile dotChar t, g(2 \<mapsto> takeWhile dotChar t)) # rest"
      using backtrack_Cap_Plus_Cons by blast
    with True Cons show ?thesis by (simp add: branchtagAfter_def del: backtrack.simps(2,5))
  next
    case False
    then have "backtrack (Cat (Lit CHR ''@'') (Cap 2 (Plus dotChar))) (s, g) = []"
      using Cons by auto
    with False Cons show ?thesis by (auto simp add: branchtagAfter_def simp del: backtrack.simps(2,5))
  qed
qed

lemma backtrack_moduleRegex_Nil:
  "takeWhile identChar s = [] \<Longrightarrow> backtrack moduleRegex (s, g) = []"
  by (simp add: moduleRegex_def)

lemma backtrack_moduleRegex_Cons:
  assumes "takeWhile identChar s \<noteq> []"
  shows "\<exists>st rest. backtrack moduleRegex (s, Map.empty) = st # rest \<and>
           snd st 1 = Some (takeWhile identChar s) \<and> snd st 2 = branchtagAfter (dropWhile identChar s)"
proof -
  obtain r1 where c1: "backtrack (Cap 1 (Plus identChar)) (s, Map.empty) =
      (dropWhile identChar s, Map.empty(1 \<mapsto> takeWhile identChar s)) # r1"
    using backtrack_Cap_Plus_Cons [OF assms] by blast
  obtain st r2 where c2:
    "backtrack (Opt (Cat (Lit CHR ''@'') (Cap 2 (Plus dotChar))))
       (dropWhile identChar s, Map.empty(1 \<mapsto> takeWhile identChar s)) = st # r2"
    "snd st 2 = (case branchtagAfter (dropWhile identChar s) of None \<Rightarrow> (Map.empty(1::nat \<mapsto> takeWhile identChar s)) 2 | Some t \<Rightarrow> Some t)"
    "snd st 1 = (Map.empty(1::nat \<mapsto> takeWhile identChar s)) 1"
    using backtrack_tag by blast
  have "backtrack moduleRegex (s, Map.empty) = st # r2 @ concat (map (backtrack (Opt (Cat (Lit CHR ''@'') (Cap 2 (Plus dotChar))))) r1)"
    unfolding moduleRegex_def backtrack.simps(3) c1 using c2(1) by simp
  moreover have "snd st 1 = Some (takeWhile identChar s)" using c2(3) by simp
  moreover have "snd st 2 = branchtagAfter (dropWhile identChar s)"
    using c2(2) by (simp split: option.splits)
  ultimately show ?thesis by blast
qed

lemma exec_moduleRegex_None: "(\<forall>c\<in>set s. \<not> identChar c) \<Longrightarrow> exec moduleRegex s = None"
proof (induction s)
  case Nil
  then show ?case by (simp add: backtrack_moduleRegex_Nil)
next
  case (Cons c s)
  then show ?case by (simp add: backtrack_moduleRegex_Nil)
qed

lemma exec_moduleRegex_Some:
  "\<not> (\<forall>c\<in>set s. \<not> identChar c) \<Longrightarrow>
   \<exists>g. exec moduleRegex s = Some g \<and>
       g 1 = Some (takeWhile identChar (dropWhile (\<lambda>c. \<not> identChar c) s)) \<and>
       g 2 = branchtagAfter (dropWhile identChar (dropWhile (\<lambda>c. \<not> identChar c) s))"
proof (induction s)
  case Nil
  then show ?case by simp
next
  case (Cons c s)
  show ?case
  proof (cases "identChar c")
    case True
    then have ne: "takeWhile identChar (c # s) \<noteq> []" by simp
    from backtrack_moduleRegex_Cons [OF ne] obtain st rest where
      "backtrack moduleRegex (c # s, Map.empty) = st # rest"
      "snd st 1 = Some (takeWhile identChar (c # s))"
      "snd st 2 = branchtagAfter (dropWhile identChar (c # s))" by blast
    with True show ?thesis by (cases st) simp
  next
    case False
    then have "backtrack moduleRegex (c # s, Map.empty) = []"
      by (simp add: backtrack_moduleRegex_Nil)
    with False Cons show ?thesis by simp
  qed
qed

lemma filter_rev_upt_hd:
  "filter P (rev [a..<b]) = K # rest \<Longrightarrow> a \<le> K \<and> K < b \<and> P K \<and> (\<forall>k. K < k \<and> k < b \<longrightarrow> \<not> P k)"
proof (induction b)
  case 0
  then show ?case by simp
next
  case (Suc b)
  show ?case
  proof (cases "a \<le> b")
    case False
    with Suc.prems show ?thesis by simp
  next
    case True
    show ?thesis
    proof (cases "P b")
      case True
      with \<open>a \<le> b\<close> Suc.prems show ?thesis by auto
    next
      case False
      with \<open>a \<le> b\<close> Suc.prems have "filter P (rev [a..<b]) = K # rest" by simp
      from Suc.IH [OF this] False show ?thesis
        by (metis less_Suc_eq)
    qed
  qed
qed

lemma concat_map_if:
  "concat (map (\<lambda>x. if P x then [h x] else []) xs) = map h (filter P xs)"
  by (induction xs) simp_all

lemma filter_drop_Nil:
  assumes "m \<le> length t"
  shows "filter (\<lambda>k. drop k t = []) (rev [1..<Suc m]) = (if m = length t \<and> t \<noteq> [] then [m] else [])"
proof (cases "m = 0")
  case True
  then show ?thesis by auto
next
  case False
  then have r: "rev [1..<Suc m] = m # rev [1..<m]" by simp
  have "filter (\<lambda>k. drop k t = []) (rev [1..<m]) = []"
    using assms by (auto simp: filter_empty_conv)
  with r False assms show ?thesis by auto
qed

lemma backtrack_ext_tail:
  "backtrack (Cat (Cap 1 (Plus dotChar)) Eos) (t, g) =
     (if t \<noteq> [] \<and> (\<forall>c\<in>set t. dotChar c) then [([], g(1 \<mapsto> t))] else [])"
proof -
  let ?m = "length (takeWhile dotChar t)"
  have le: "?m \<le> length t" by (rule length_takeWhile_le)
  have all: "?m = length t \<longleftrightarrow> (\<forall>c\<in>set t. dotChar c)"
    by (metis length_takeWhile_le takeWhile_eq_all_conv takeWhile_eq_take take_all_iff le_refl)
  have "backtrack (Cat (Cap 1 (Plus dotChar)) Eos) (t, g) =
      concat (map (\<lambda>k. if drop k t = [] then [([], g(1 \<mapsto> take (length t - length (drop k t)) t))] else [])
        (rev [1..<Suc ?m]))"
    by (simp add: comp_def cong: if_cong)
  also have "\<dots> = map (\<lambda>k. ([], g(1 \<mapsto> take (length t - length (drop k t)) t)))
      (filter (\<lambda>k. drop k t = []) (rev [1..<Suc ?m]))"
    by (rule concat_map_if)
  also have "\<dots> = (if t \<noteq> [] \<and> (\<forall>c\<in>set t. dotChar c) then [([], g(1 \<mapsto> t))] else [])"
    unfolding filter_drop_Nil [OF le] using all by auto
  finally show ?thesis .
qed

lemma backtrack_Lit_drop:
  "backtrack (Cat (Lit c) r) (drop k s, g) =
     (if k < length s \<and> s ! k = c then backtrack r (drop (Suc k) s, g) else [])"
proof (cases "k < length s")
  case True
  then have "drop k s = s ! k # drop (Suc k) s" by (simp add: Cons_nth_drop_Suc)
  then show ?thesis using True by simp
next
  case False
  then show ?thesis by simp
qed

lemma backtrack_extRegex:
  "backtrack extRegex (s, g) =
     map (\<lambda>k. ([], g(1 \<mapsto> drop (Suc k) s)))
       (filter (validDot s) (rev [1..<Suc (length (takeWhile dotChar s))]))"
proof -
  have "backtrack extRegex (s, g) =
      concat (map (\<lambda>k. if validDot s k then [([], g(1 \<mapsto> drop (Suc k) s))] else [])
        (rev [1..<Suc (length (takeWhile dotChar s))]))"
    unfolding extRegex_def backtrack.simps(3) [of "Plus dotChar"] backtrack.simps(2) map_map comp_def
      backtrack_Lit_drop backtrack_ext_tail validDot_def
    by (intro arg_cong [where f = concat] map_cong refl) auto
  then show ?thesis by (simp only: concat_map_if)
qed

lemma backtrack_extRegex_hd:
  assumes "backtrack extRegex (s, Map.empty) = (rest, g) # others"
  shows "\<exists>K. 0 < K \<and> K \<le> length (takeWhile dotChar s) \<and> validDot s K \<and> g 1 = Some (drop (Suc K) s) \<and>
            (\<forall>k. K < k \<and> k \<le> length (takeWhile dotChar s) \<longrightarrow> \<not> validDot s k)"
proof -
  let ?n = "length (takeWhile dotChar s)"
  from assms obtain K ks where f: "filter (validDot s) (rev [1..<Suc ?n]) = K # ks"
    and g: "g = Map.empty(1 \<mapsto> drop (Suc K) s)"
    unfolding backtrack_extRegex by (auto simp: map_eq_Cons_conv)
  from filter_rev_upt_hd [OF f] have a: "1 \<le> K" and b: "K < Suc ?n" and c: "validDot s K"
    and d: "\<forall>k. K < k \<and> k < Suc ?n \<longrightarrow> \<not> validDot s k" by blast+
  have e: "g 1 = Some (drop (Suc K) s)" by (simp add: g)
  have "0 < K" using a by arith
  moreover have "K \<le> ?n" using b by arith
  moreover have "\<forall>k. K < k \<and> k \<le> ?n \<longrightarrow> \<not> validDot s k"
  proof (intro allI impI)
    fix k assume "K < k \<and> k \<le> ?n"
    then have "K < k \<and> k < Suc ?n" by arith
    then show "\<not> validDot s k" using d by blast
  qed
  ultimately show ?thesis using c e by blast
qed

lemma all_dotChar_prefix:
  assumes "K \<le> length (takeWhile dotChar s)"
  shows "\<forall>c\<in>set (take K s). dotChar c"
proof
  fix c assume "c \<in> set (take K s)"
  then obtain i where i: "i < length (take K s)" "take K s ! i = c"
    by (auto simp: in_set_conv_nth)
  then have il: "i < length (takeWhile dotChar s)" using assms by simp
  then have "takeWhile dotChar s ! i = s ! i" by (rule takeWhile_nth)
  moreover have "take K s ! i = s ! i" using i(1) by simp
  ultimately have "c = takeWhile dotChar s ! i" using i(2) by simp
  then have "c \<in> set (takeWhile dotChar s)" using il by simp
  then show "dotChar c" using set_takeWhileD by fast
qed

lemma first_match_shape:
  assumes "backtrack extRegex (s, Map.empty) = (rest, g) # others"
  shows "\<exists>pre c ext. s = pre @ c # CHR ''.'' # ext \<and> dotChar c \<and> ext \<noteq> [] \<and>
           (\<forall>x\<in>set ext. dotChar x) \<and> CHR ''.'' \<notin> set (butlast ext) \<and> g 1 = Some ext"
proof -
  let ?n = "length (takeWhile dotChar s)"
  from backtrack_extRegex_hd [OF assms] obtain K where K: "0 < K" "K \<le> ?n" "validDot s K"
    "g 1 = Some (drop (Suc K) s)" and mx: "\<forall>k. K < k \<and> k \<le> ?n \<longrightarrow> \<not> validDot s k" by blast
  let ?ext = "drop (Suc K) s"
  from K(3) have Kl: "K < length s" and dot: "s ! K = CHR ''.''" and ne: "?ext \<noteq> []"
    and ad: "\<forall>x\<in>set ?ext. dotChar x" by (simp_all add: validDot_def)
  have pre: "\<forall>c\<in>set (take K s). dotChar c" using all_dotChar_prefix [OF K(2)] .
  have s1: "s = take K s @ CHR ''.'' # ?ext" using Kl dot by (metis id_take_nth_drop)
  have "K - 1 < length (take K s)" using K(1) Kl by simp
  then have s2: "take K s = take (K - 1) s @ [s ! (K - 1)]"
    using K(1) Kl by (metis Suc_pred' less_imp_diff_less take_Suc_conv_app_nth)
  have dc: "dotChar (s ! (K - 1))" using pre s2 by (metis in_set_conv_decomp)
  have whole: "\<forall>c\<in>set s. dotChar c"
  proof
    fix c assume "c \<in> set s"
    then have "c \<in> set (take K s) \<or> c = CHR ''.'' \<or> c \<in> set ?ext"
      by (subst (asm) s1) auto
    then show "dotChar c" using pre ad by (auto simp: dotChar_def)
  qed
  then have n: "?n = length s" by (metis takeWhile_eq_all_conv)
  have nodot: "CHR ''.'' \<notin> set (butlast ?ext)"
  proof
    assume "CHR ''.'' \<in> set (butlast ?ext)"
    then obtain j where j: "j < length (butlast ?ext)" "butlast ?ext ! j = CHR ''.''"
      by (metis in_set_conv_nth)
    then have j2: "Suc j < length ?ext" by simp
    then have ej: "?ext ! j = CHR ''.''" using j by (simp add: nth_butlast)
    let ?k = "Suc K + j"
    have kl: "?k < length s" using j2 by simp
    have "s ! ?k = CHR ''.''" using ej Kl j2 by (simp add: add.commute)
    moreover have "drop (Suc ?k) s = drop (Suc j) ?ext" by (simp add: add.commute)
    moreover have "drop (Suc j) ?ext \<noteq> []" using j2 by simp
    moreover have "\<forall>c\<in>set (drop (Suc j) ?ext). dotChar c" using ad by (meson in_set_dropD)
    ultimately have "validDot s ?k" using kl unfolding validDot_def by metis
    moreover have "K < ?k" "?k \<le> ?n" using n kl by simp_all
    ultimately show False using mx by blast
  qed
  have "s = take (K - 1) s @ s ! (K - 1) # CHR ''.'' # ?ext" using s1 s2 by simp
  with dc ne ad nodot K(4) show ?thesis by blast
qed

lemma exec_extRegex_Some:
  "exec extRegex s = Some g \<Longrightarrow>
   \<exists>pre c ext. s = pre @ c # CHR ''.'' # ext \<and> dotChar c \<and> ext \<noteq> [] \<and>
     (\<forall>x\<in>set ext. dotChar x) \<and> CHR ''.'' \<notin> set (butlast ext) \<and> g 1 = Some ext"
proof (induction s)
  case Nil
  then show ?case by (simp add: backtrack_extRegex)
next
  case (Cons a s)
  show ?case
  proof (cases "backtrack extRegex (a # s, Map.empty)")
    case Nil
    with Cons.prems have "exec extRegex s = Some g" by simp
    from Cons.IH [OF this] obtain pre c ext where
      "s = pre @ c # CHR ''.'' # ext" "dotChar c" "ext \<noteq> []" "\<forall>x\<in>set ext. dotChar x"
      "CHR ''.'' \<notin> set (butlast ext)" "g 1 = Some ext" by blast
    then have "a # s = (a # pre) @ c # CHR ''.'' # ext" by simp
    then show ?thesis
      using \<open>dotChar c\<close> \<open>ext \<noteq> []\<close> \<open>\<forall>x\<in>set ext. dotChar x\<close> \<open>CHR ''.'' \<notin> set (butlast ext)\<close> \<open>g 1 = Some ext\<close>
      by blast
  next
    case (Cons st others)
    obtain rest g' where st: "st = (rest, g')" by (cases st)
    with Cons Cons.prems have "g' = g" by simp
    with Cons st have "backtrack extRegex (a # s, Map.empty) = (rest, g) # others" by simp
    then show ?thesis by (rule first_match_shape)
  qed
qed

lemma exec_Cons_None: "exec r (a # s) = None \<Longrightarrow> exec r s = None"
  by (simp split: list.splits prod.splits)

lemma exec_append_None: "exec r (pre @ s) = None \<Longrightarrow> exec r s = None"
proof (induction pre)
  case Nil
  then show ?case by simp
next
  case (Cons a pre)
  from Cons.prems have "exec r (a # (pre @ s)) = None" by simp
  then have "exec r (pre @ s) = None" by (rule exec_Cons_None)
  then show ?case by (rule Cons.IH)
qed

lemma exec_extRegex_shape_Some:
  assumes "dotChar c" "ext \<noteq> []" "\<forall>x\<in>set ext. dotChar x"
  shows "exec extRegex (pre @ c # CHR ''.'' # ext) \<noteq> None"
proof -
  let ?s = "c # CHR ''.'' # ext"
  have "validDot ?s 1" using assms by (simp add: validDot_def)
  moreover have "1 \<in> set (rev [1..<Suc (length (takeWhile dotChar ?s))])" using assms(1) by simp
  ultimately have "filter (validDot ?s) (rev [1..<Suc (length (takeWhile dotChar ?s))]) \<noteq> []"
    by (metis filter_empty_conv)
  then have "backtrack extRegex (?s, Map.empty) \<noteq> []"
    unfolding backtrack_extRegex by simp
  then have "exec extRegex ?s \<noteq> None" by (simp split: list.splits prod.splits)
  then show ?thesis by (metis exec_append_None)
qed

lemma hasExtension_iff:
  "hasExtension s \<longleftrightarrow>
   (\<exists>pre c ext. s = pre @ c # CHR ''.'' # ext \<and> dotChar c \<and> ext \<noteq> [] \<and> (\<forall>x\<in>set ext. dotChar x))"
proof
  assume "hasExtension s"
  then obtain k where k: "1 \<le> k" "k < length s - 1" "s ! k = CHR ''.''" "dotChar (s ! (k - 1))"
    "\<forall>c\<in>set (drop (Suc k) s). dotChar c" by (auto simp: hasExtension_def)
  then have kl: "k < length s" by simp
  have s1: "s = take k s @ CHR ''.'' # drop (Suc k) s" using kl k(3) by (metis id_take_nth_drop)
  have "take k s = take (k - 1) s @ [s ! (k - 1)]"
    using k(1) kl by (metis Suc_pred' less_imp_diff_less less_eq_Suc_le take_Suc_conv_app_nth One_nat_def)
  with s1 have "s = take (k - 1) s @ s ! (k - 1) # CHR ''.'' # drop (Suc k) s" by simp
  moreover have "drop (Suc k) s \<noteq> []" using k(2) by simp
  ultimately show "\<exists>pre c ext. s = pre @ c # CHR ''.'' # ext \<and> dotChar c \<and> ext \<noteq> [] \<and> (\<forall>x\<in>set ext. dotChar x)"
    using k(4,5) by blast
next
  assume "\<exists>pre c ext. s = pre @ c # CHR ''.'' # ext \<and> dotChar c \<and> ext \<noteq> [] \<and> (\<forall>x\<in>set ext. dotChar x)"
  then obtain pre c ext where s: "s = pre @ c # CHR ''.'' # ext" and c: "dotChar c"
    and e: "ext \<noteq> []" "\<forall>x\<in>set ext. dotChar x" by blast
  let ?k = "Suc (length pre)"
  have "?k \<in> {1..<length s - 1}" using s e(1) by (cases ext) auto
  moreover have "s ! ?k = CHR ''.''" using s by (simp add: nth_append)
  moreover have "s ! (?k - 1) = c" using s by (simp add: nth_append)
  moreover have "drop (Suc ?k) s = ext" using s by simp
  ultimately show "hasExtension s" unfolding hasExtension_def using c e(2) by (intro bexI [of _ ?k]) auto
qed

lemma exec_extRegex_None_iff: "exec extRegex s = None \<longleftrightarrow> \<not> hasExtension s"
proof
  assume n: "exec extRegex s = None"
  show "\<not> hasExtension s"
  proof
    assume "hasExtension s"
    then obtain pre c ext where "s = pre @ c # CHR ''.'' # ext" "dotChar c" "ext \<noteq> []" "\<forall>x\<in>set ext. dotChar x"
      unfolding hasExtension_iff by blast
    then show False using exec_extRegex_shape_Some n by blast
  qed
next
  assume h: "\<not> hasExtension s"
  show "exec extRegex s = None"
  proof (rule ccontr)
    assume "exec extRegex s \<noteq> None"
    then obtain g where "exec extRegex s = Some g" by blast
    from exec_extRegex_Some [OF this] have "hasExtension s" unfolding hasExtension_iff by blast
    with h show False ..
  qed
qed

subsection \<open>Content type\<close>

lemma group_is_suffix:
  assumes s: "s = pre @ c # CHR ''.'' # ext" and ne: "ext \<noteq> []"
    and nd: "CHR ''.'' \<notin> set (butlast ext)" and e: "e \<noteq> []" "CHR ''.'' \<notin> set e"
  shows "ext = e \<longleftrightarrow> suffix (CHR ''.'' # e) s"
proof
  assume "ext = e"
  then have "s = (pre @ [c]) @ CHR ''.'' # e" using s by simp
  then show "suffix (CHR ''.'' # e) s" unfolding suffix_def by blast
next
  assume "suffix (CHR ''.'' # e) s"
  then obtain q where "s = q @ CHR ''.'' # e" unfolding suffix_def by blast
  with s have "q @ (CHR ''.'' # e) = (pre @ [c]) @ (CHR ''.'' # ext)" by simp
  then obtain us where us: "(q = (pre @ [c]) @ us \<and> us @ CHR ''.'' # e = CHR ''.'' # ext) \<or>
      (q @ us = pre @ [c] \<and> CHR ''.'' # e = us @ CHR ''.'' # ext)"
    unfolding append_eq_append_conv2 by blast
  show "ext = e"
  proof (cases us)
    case Nil
    with us show ?thesis by auto
  next
    case (Cons u us')
    from us show ?thesis
    proof
      assume "q = (pre @ [c]) @ us \<and> us @ CHR ''.'' # e = CHR ''.'' # ext"
      with Cons have "ext = us' @ CHR ''.'' # e" by simp
      then have "butlast ext = us' @ CHR ''.'' # butlast e" using e(1) by (simp add: butlast_append)
      with nd show ?thesis by simp
    next
      assume "q @ us = pre @ [c] \<and> CHR ''.'' # e = us @ CHR ''.'' # ext"
      with Cons have "e = us' @ CHR ''.'' # ext" by simp
      with e(2) show ?thesis by simp
    qed
  qed
qed

lemma exec_extRegex_group:
  assumes "exec extRegex s = Some g" and e: "e \<noteq> []" "CHR ''.'' \<notin> set e"
  shows "g 1 = Some e \<longleftrightarrow> suffix (CHR ''.'' # e) s"
proof -
  from exec_extRegex_Some [OF assms(1)] obtain pre c ext where
    s: "s = pre @ c # CHR ''.'' # ext" and ne: "ext \<noteq> []"
    and nd: "CHR ''.'' \<notin> set (butlast ext)" and g: "g 1 = Some ext" by blast
  from group_is_suffix [OF s ne nd e] g show ?thesis by simp
qed

text \<open>
  Claim C2, amended. \<^verbatim>\<open>getContentType\<close> raises exactly when the name has no extension
  in the sense of \<open>hasExtension\<close>: no dot that has a character other than a line break
  before it and at least one character, none of them a line break, after it. So a name
  without a dot raises, and so does a name whose only dot is its first or its last
  character. Otherwise the result is the JavaScript type when the name ends in \<^verbatim>\<open>.js\<close>,
  the TypeScript type when it ends in \<^verbatim>\<open>.ts\<close>, and plain text in every other case.
\<close>

theorem getContentType_by_extension:
  "getContentType nm =
     (if \<not> hasExtension nm then Inl TypeError
      else if suffix ''.js'' nm then Inr ''application/javascript''
      else if suffix ''.ts'' nm then Inr ''application/typescript''
      else Inr ''text/plain'')"
proof (cases "exec extRegex nm")
  case None
  then have "\<not> hasExtension nm" by (simp add: exec_extRegex_None_iff)
  with None show ?thesis by (simp add: getContentType_def)
next
  case (Some g)
  then have h: "hasExtension nm" using exec_extRegex_None_iff [of nm] by simp
  have js: "g 1 = Some ''js'' \<longleftrightarrow> suffix ''.js'' nm"
    using exec_extRegex_group [OF Some, of "''js''"] by simp
  have ts: "g 1 = Some ''ts'' \<longleftrightarrow> suffix ''.ts'' nm"
    using exec_extRegex_group [OF Some, of "''ts''"] by simp
  show ?thesis using Some h js ts by (simp add: getContentType_def)
qed

theorem getContentType_by_extension_witness:
  "hasExtension ''x.js'' \<and> getContentType ''x.js'' = Inr ''application/javascript'' \<and>
   hasExtension ''x.ts'' \<and> getContentType ''x.ts'' = Inr ''application/typescript'' \<and>
   hasExtension ''x.md'' \<and> getContentType ''x.md'' = Inr ''text/plain'' \<and>
   \<not> hasExtension ''Makefile'' \<and> getContentType ''Makefile'' = Inl TypeError"
proof -
  have h: "hasExtension ''x.js''" "hasExtension ''x.ts''" "hasExtension ''x.md''"
    unfolding hasExtension_def by (rule bexI [of _ 1]; simp add: dotChar_def)+
  have n: "\<not> hasExtension ''Makefile''"
    unfolding hasExtension_def by (simp add: atLeastLessThan_def atLeast_def lessThan_def nth_Cons')
  show ?thesis
    using h n getContentType_by_extension [of "''x.js''"] getContentType_by_extension [of "''x.ts''"]
      getContentType_by_extension [of "''x.md''"] getContentType_by_extension [of "''Makefile''"]
    by (simp add: suffix_def)
qed

text \<open>
  The claim as stated (it raises exactly when the name contains no dot) fails on a dotfile:
  the name contains a dot and the call raises, since nothing stands before the dot.
\<close>

theorem getContentType_dotfile_counterexample:
  "\<not> (getContentType ''.gitignore'' = Inl TypeError \<longleftrightarrow> CHR ''.'' \<notin> set ''.gitignore'')"
  by (simp add: getContentType_def extRegex_def dotChar_def)

subsection \<open>Segment 0\<close>

lemma parseSegment0_no_ident:
  assumes "\<forall>c\<in>set (segment0 segs). \<not> identChar c"
  shows "parseSegment0 segs = Inl TypeError"
  using assms by (simp add: parseSegment0_def exec_moduleRegex_None)

lemma parseSegment0_ident:
  assumes "\<not> (\<forall>c\<in>set (segment0 segs). \<not> identChar c)"
  shows "parseSegment0 segs =
           Inr (takeWhile identChar (dropWhile (\<lambda>c. \<not> identChar c) (segment0 segs)),
                case branchtagAfter
                       (dropWhile identChar (dropWhile (\<lambda>c. \<not> identChar c) (segment0 segs))) of
                  None \<Rightarrow> JNull
                | Some b \<Rightarrow> JStr b)"
proof -
  from exec_moduleRegex_Some [OF assms] obtain g where
    "exec moduleRegex (segment0 segs) = Some g"
    "g 1 = Some (takeWhile identChar (dropWhile (\<lambda>c. \<not> identChar c) (segment0 segs)))"
    "g 2 = branchtagAfter (dropWhile identChar (dropWhile (\<lambda>c. \<not> identChar c) (segment0 segs)))"
    by blast
  then show ?thesis by (simp add: parseSegment0_def)
qed

text \<open>
  Where segment 0 is an identifier as a whole, or an identifier, an \<^verbatim>\<open>@\<close> and a branchtag,
  the module name is that identifier and the branchtag is what follows the \<^verbatim>\<open>@\<close>, up to a
  line break.
\<close>

lemma spec_segmentPattern_parse:
  assumes "spec_segmentPattern s"
  shows "parseSegment0 (s # segs) =
           Inr (takeWhile identChar s,
                case dropWhile identChar s of [] \<Rightarrow> JNull | c # tag \<Rightarrow>
                  if takeWhile dotChar tag = [] then JNull else JStr (takeWhile dotChar tag))"
proof -
  from assms obtain c where c: "c \<in> set s" "identChar c" "takeWhile identChar s \<noteq> []"
    unfolding spec_segmentPattern_def by (cases s) (auto split: if_splits)
  then have hd: "identChar (hd s)" by (cases s) (auto split: if_splits)
  then have d: "dropWhile (\<lambda>c. \<not> identChar c) s = s" using c by (cases s) auto
  have s0: "segment0 (s # segs) = s" by (simp add: segment0_def)
  have ne: "\<not> (\<forall>c\<in>set (segment0 (s # segs)). \<not> identChar c)" using c s0 by auto
  have "parseSegment0 (s # segs) =
      Inr (takeWhile identChar s,
           case branchtagAfter (dropWhile identChar s) of None \<Rightarrow> JNull | Some b \<Rightarrow> JStr b)"
    using parseSegment0_ident [OF ne] by (simp only: s0 d)
  moreover have "(case branchtagAfter (dropWhile identChar s) of None \<Rightarrow> JNull | Some b \<Rightarrow> JStr b) =
      (case dropWhile identChar s of [] \<Rightarrow> JNull | c # tag \<Rightarrow>
         if takeWhile dotChar tag = [] then JNull else JStr (takeWhile dotChar tag))"
  proof (cases "dropWhile identChar s")
    case Nil
    show ?thesis unfolding Nil branchtagAfter_def by simp
  next
    case (Cons a tag)
    from assms have "a = CHR ''@''" unfolding spec_segmentPattern_def Cons by simp
    then show ?thesis unfolding Cons branchtagAfter_def by simp
  qed
  ultimately show ?thesis by simp
qed

text \<open>
  Claim C1, amended. With \<open>segment0 segs\<close> the string the pattern is run on, parsing
  segment 0 raises exactly when that string holds no character of the class
  \<^verbatim>\<open>[0-9a-z-_]\<close> anywhere. Otherwise the module name is the first maximal run of such
  characters, wherever in the segment it starts, and the branchtag is what follows an
  \<^verbatim>\<open>@\<close> that comes right behind that run, up to a line break; it is \<^verbatim>\<open>null\<close> when no \<^verbatim>\<open>@\<close>
  comes right behind the run or nothing follows the \<^verbatim>\<open>@\<close>.
\<close>

theorem parseSegment0_first_run:
  "parseSegment0 segs =
     (if \<forall>c\<in>set (segment0 segs). \<not> identChar c then Inl TypeError
      else Inr (takeWhile identChar (dropWhile (\<lambda>c. \<not> identChar c) (segment0 segs)),
                case branchtagAfter
                       (dropWhile identChar (dropWhile (\<lambda>c. \<not> identChar c) (segment0 segs))) of
                  None \<Rightarrow> JNull
                | Some b \<Rightarrow> JStr b))"
proof (cases "\<forall>c\<in>set (segment0 segs). \<not> identChar c")
  case True
  then have "parseSegment0 segs = Inl TypeError" by (rule parseSegment0_no_ident)
  with True show ?thesis by simp
next
  case False
  from parseSegment0_ident [OF False] False show ?thesis by simp
qed

theorem parseSegment0_first_run_witness:
  "parseSegment0 [''std@v0.42.0'', ''http''] = Inr (''std'', JStr ''v0.42.0'') \<and>
   parseSegment0 [''oak''] = Inr (''oak'', JNull) \<and>
   parseSegment0 [''my.module@v1''] = Inr (''my'', JNull) \<and>
   parseSegment0 [''FOO''] = Inl TypeError"
  using parseSegment0_first_run [of "[''std@v0.42.0'', ''http'']"]
    parseSegment0_first_run [of "[''oak'']"]
    parseSegment0_first_run [of "[''my.module@v1'']"]
    parseSegment0_first_run [of "[''FOO'']"]
  by (simp add: segment0_def identChar_def branchtagAfter_def dotChar_def)

text \<open>
  Segment 0 need not be an identifier as a whole for the parse to go through: \<^verbatim>\<open>Foo\<close> is
  none, and it parses, to the module name \<^verbatim>\<open>oo\<close>.
\<close>

theorem parseSegment0_unanchored_counterexample:
  "\<not> spec_segmentPattern ''Foo'' \<and> parseSegment0 [''Foo''] = Inr (''oo'', JNull)"
  by (simp add: spec_segmentPattern_def parseSegment0_def segment0_def moduleRegex_def
      identChar_def dotChar_def)

subsection \<open>The stages of \<^verbatim>\<open>fetchModuleMetadata\<close>\<close>

lemma thenE_Inr_iff: "thenE m f = Inr y \<longleftrightarrow> (\<exists>x. m = Inr x \<and> f x = Inr y)"
  by (cases m) simp_all

lemma thenE_InrE:
  assumes "thenE m f = Inr y"
  obtains x where "m = Inr x" "f x = Inr y"
  using assms by (cases m) simp_all

lemma fetchTree_cases:
  assumes "fetchTree env r k = Inr (r', k')"
  shows "(type (meta r) \<noteq> ''GitHub'' \<and> r' = r \<and> k' = k) \<or>
         (\<exists>url resp d. type (meta r) = ''GitHub'' \<and> contentsUrl r = Inr url \<and>
            fetch env k url (requestHeaders env (meta r)) = Some resp \<and> resp_json resp = Some d \<and>
            k' = Suc k \<and> r' = (if resp_ok resp then r\<lparr>tree := d\<rparr> else r\<lparr>errors := d\<rparr>))"
proof (cases "type (meta r) = ''GitHub''")
  case False
  with assms show ?thesis by (simp add: fetchTree_def)
next
  case gh: True
  show ?thesis
  proof (cases "contentsUrl r")
    case (Inl e)
    with assms gh show ?thesis by (simp add: fetchTree_def)
  next
    case (Inr url)
    show ?thesis
    proof (cases "fetch env k url (requestHeaders env (meta r))")
      case None
      with assms gh Inr show ?thesis by (simp add: fetchTree_def)
    next
      case (Some resp)
      show ?thesis
      proof (cases "resp_json resp")
        case None
        with assms gh Inr Some show ?thesis by (simp add: fetchTree_def)
      next
        case (Some d)
        with assms gh Inr \<open>fetch env k url (requestHeaders env (meta r)) = Some resp\<close>
        show ?thesis by (cases "resp_ok resp") (simp_all add: fetchTree_def)
      qed
    qed
  qed
qed

lemma fetchTree_frame:
  assumes "fetchTree env r k = Inr (r', k')"
  shows "meta r' = meta r \<and> branchtag r' = branchtag r \<and> branchtags r' = branchtags r \<and>
         segments r' = segments r \<and> breadcrumbs r' = breadcrumbs r \<and> path r' = path r \<and>
         readme r' = readme r \<and> content r' = content r \<and> sourceUrl r' = sourceUrl r"
  using fetchTree_cases [OF assms] by (auto split: if_splits)

lemma readTree_frame:
  assumes "readTree env r k = Inr r'"
  shows "meta r' = meta r \<and> branchtag r' = branchtag r \<and> branchtags r' = branchtags r \<and>
         segments r' = segments r \<and> breadcrumbs r' = breadcrumbs r \<and> path r' = path r \<and>
         errors r' = errors r"
proof (cases "truthy (tree r)")
  case False
  with assms show ?thesis by (simp add: readTree_def)
next
  case t: True
  show ?thesis
  proof (cases "\<exists>entries. tree r = JArr entries")
    case True
    then obtain entries where e: "tree r = JArr entries" by blast
    with assms t obtain sorted where s: "sortBy (compareType env) entries = Inr sorted"
      by (auto simp: readTree_def elim!: thenE_InrE)
    show ?thesis
    proof (cases "type (meta r) = ''GitHub''")
      case False
      with assms t e s show ?thesis by (auto simp: readTree_def)
    next
      case gh: True
      with assms t e s obtain found where f: "findReadme sorted = Inr found"
        by (auto simp: readTree_def Let_def elim!: thenE_InrE)
      show ?thesis
      proof (cases found)
        case None
        with assms t e s gh f show ?thesis by (auto simp: readTree_def)
      next
        case (Some fl)
        show ?thesis
        proof (cases "truthy fl")
          case False
          with assms t e s gh f Some show ?thesis by (auto simp: readTree_def)
        next
          case True
          with assms t e s gh f Some show ?thesis
            by (auto simp: readTree_def Let_def elim!: thenE_InrE split: option.splits)
        qed
      qed
    qed
  next
    case False
    show ?thesis
    proof (cases "type (meta r) = ''GitHub''")
      case False
      with assms t \<open>\<not> (\<exists>entries. tree r = JArr entries)\<close> show ?thesis
        by (cases "tree r") (auto simp: readTree_def)
    next
      case True
      with assms t \<open>\<not> (\<exists>entries. tree r = JArr entries)\<close>
      show ?thesis
        by (cases "tree r") (auto simp: readTree_def elim!: thenE_InrE)
    qed
  qed
qed

lemma fetchModuleMetadata_Resolution:
  "fetchModuleMetadata env segs isApi n = Inr (Resolution r) \<longleftrightarrow>
   (\<exists>r1 k r2 k'. resolveModule env segs isApi n = Inr (Some (r1, k)) \<and>
      fetchTree env r1 k = Inr (r2, k') \<and> readTree env r2 k' = Inr r)"
  by (auto simp: fetchModuleMetadata_def thenE_Inr_iff split: sum.splits option.splits prod.splits)

lemma resolveModule_Some:
  assumes "resolveModule env segs isApi n = Inr (Some (r, k))"
  shows "\<exists>moduleName bt0 m url k1.
           parseSegment0 segs = Inr (moduleName, bt0) \<and> fetchModule env moduleName = Some m \<and>
           createRepoUrl m = Inr url \<and>
           meta r = \<lparr>type = type m, org = org m, repo = repo m, name = moduleName, repoUrl = url\<rparr> \<and>
           resolveBranchtag env (meta r) bt0 n = Inr (branchtag r, k1) \<and>
           (if isApi then branchtags r = None \<and> breadcrumbs r = None \<and> k = k1
            else \<exists>refs. fetchModuleBranchtags env (meta r) k1 = Inr (refs, k) \<and>
                   branchtags r = Some refs \<and> breadcrumbs r = Some (makeBreadcrumbs segs)) \<and>
           segments r = segs \<and> path r = ''/'' @ join ''/'' (drop 1 segs) \<and> tree r = JNull \<and>
           readme r = None \<and> content r = JNull \<and> sourceUrl r = JNull \<and> errors r = JNull"
proof -
  from assms obtain moduleName bt0 where p: "parseSegment0 segs = Inr (moduleName, bt0)"
    by (auto simp: resolveModule_def thenE_Inr_iff)
  with assms obtain m where m: "fetchModule env moduleName = Some m"
    by (auto simp: resolveModule_def split: option.splits)
  with assms p obtain url where u: "createRepoUrl m = Inr url"
    by (auto simp: resolveModule_def thenE_Inr_iff)
  define mt where "mt = \<lparr>type = type m, org = org m, repo = repo m, name = moduleName, repoUrl = url\<rparr>"
  from assms p m u obtain bt k1 where b: "resolveBranchtag env mt bt0 n = Inr (bt, k1)"
    by (auto simp: resolveModule_def thenE_Inr_iff Let_def mt_def)
  show ?thesis
  proof (cases isApi)
    case True
    with assms p m u b have "r = \<lparr>meta = mt, branchtag = bt, branchtags = None, segments = segs,
        breadcrumbs = None, path = ''/'' @ join ''/'' (drop 1 segs), tree = JNull, readme = None,
        content = JNull, sourceUrl = JNull, errors = JNull\<rparr>" and "k = k1"
      by (auto simp: resolveModule_def Let_def mt_def)
    with p m u b True show ?thesis by (auto simp: mt_def)
  next
    case False
    with assms p m u b obtain refs where f: "fetchModuleBranchtags env mt k1 = Inr (refs, k)"
      and "r = \<lparr>meta = mt, branchtag = bt, branchtags = Some refs, segments = segs,
        breadcrumbs = Some (makeBreadcrumbs segs), path = ''/'' @ join ''/'' (drop 1 segs), tree = JNull,
        readme = None, content = JNull, sourceUrl = JNull, errors = JNull\<rparr>"
      by (auto simp: resolveModule_def Let_def mt_def thenE_Inr_iff)
    with p m u b False show ?thesis by (auto simp: mt_def)
  qed
qed

lemma readTree_null: "tree r = JNull \<Longrightarrow> readTree env r k = Inr r"
  by (simp add: readTree_def)

lemma resolveBranchtag_GitHub:
  assumes "type mt = ''GitHub''" and "resolveBranchtag env mt JNull k = Inr (b, k1)"
  shows "\<exists>resp data.
           fetch env k (''https://api.github.com/repos/'' @ org mt @ ''/'' @ repo mt)
             (Some (getGitHubHeaders env)) = Some resp \<and>
           resp_json resp = Some data \<and> getProp data ''default_branch'' = Inr b \<and> k1 = Suc k"
  using assms
  by (auto simp: resolveBranchtag_def fetchJson_def requestHeaders_def elim!: thenE_InrE
      split: option.splits)

text \<open>
  On its own, the branchtag step gives \<^verbatim>\<open>master\<close> to a module of another type; within
  \<^verbatim>\<open>fetchModuleMetadata\<close> no such module gets that far.
\<close>

lemma resolveBranchtag_other:
  assumes "type mt \<noteq> ''GitHub''" and "type mt \<noteq> ''GitLab''"
  shows "resolveBranchtag env mt JNull k = Inr (JStr ''master'', k)"
  using assms by (simp add: resolveBranchtag_def)

lemma resolveBranchtag_GitLab:
  assumes "type mt = ''GitLab''" and "resolveBranchtag env mt JNull k = Inr (b, k1)"
  shows "b = JNull \<and> k1 = k"
  using assms by (auto simp: resolveBranchtag_def)

subsection \<open>The example environment, evaluated\<close>

lemmas example_simps = char_of_eq_iff take_bit_eq_mod
  fetchModuleMetadata_def resolveModule_def parseSegment0_def segment0_def
  moduleRegex_def identChar_def dotChar_def exampleEnv_def createRepoUrl_def
  resolveBranchtag_def fetchJson_def requestHeaders_def exampleFetch_def Let_def
  fetchTree_def contentsUrl_def readTree_def fetchModuleBranchtags_def createBranchtagUrls_def
  branchtagHeaders_def transformBranchtags_def makeBreadcrumbs_def exampleListing_def
  compareType_def codeUnitCompare_def toLowerCase_def toLowerChar_def exampleHeaders_def
  less_char_def

lemma example_foo:
  "fetchModuleMetadata exampleEnv [''foo'', ''bar'', ''baz''] False 0 =
     Inr (Resolution
       \<lparr>meta = \<lparr>type = ''GitLab'', org = ''group'', repo = ''proj'', name = ''foo'',
                repoUrl = ''https://gitlab.com/group/proj''\<rparr>,
        branchtag = JNull, branchtags = Some [JStr ''master'', JStr ''v1''],
        segments = [''foo'', ''bar'', ''baz''],
        breadcrumbs = Some [(''x'', ''/x''), (''foo'', ''/x/foo''), (''bar'', ''/x/foo/bar''),
                            (''baz'', ''/x/foo/bar/baz'')],
        path = ''/bar/baz'', tree = JNull, readme = None, content = JNull, sourceUrl = JNull,
        errors = JNull\<rparr>)"
  by (simp add: example_simps)

lemma example_oak:
  "fetchModuleMetadata exampleEnv [''oak''] False 0 =
     Inr (Resolution
       \<lparr>meta = \<lparr>type = ''GitHub'', org = ''oakserver'', repo = ''oak'', name = ''oak'',
                repoUrl = ''https://github.com/oakserver/oak''\<rparr>,
        branchtag = JStr ''main'',
        branchtags = Some [JStr ''main'', JStr ''v1'', JStr ''v1'', JStr ''v2''],
        segments = [''oak''],
        breadcrumbs = Some [(''x'', ''/x''), (''oak'', ''/x/oak'')],
        path = ''/'',
        tree = JArr
          [JObj [(''name'', JStr ''docs''), (''type'', JStr ''dir'')],
           JObj [(''name'', JStr ''examples''), (''type'', JStr ''dir'')],
           JObj [(''name'', JStr ''mod.ts''), (''type'', JStr ''file'')],
           JObj [(''name'', JStr ''README.md''), (''type'', JStr ''file''),
                 (''download_url'', JStr ''https://raw.example/oak/README.md'')]],
        readme = Some ''# oak'', content = JNull, sourceUrl = JNull, errors = JNull\<rparr>)"
  by (simp add: example_simps)

lemma example_proj:
  "fetchModuleMetadata exampleEnv [''proj''] True 0 =
     Inr (Resolution
       \<lparr>meta = \<lparr>type = ''GitLab'', org = ''group'', repo = ''proj'', name = ''proj'',
                repoUrl = ''https://gitlab.com/group/proj''\<rparr>,
        branchtag = JNull, branchtags = None, segments = [''proj''], breadcrumbs = None,
        path = ''/'', tree = JNull, readme = None, content = JNull, sourceUrl = JNull,
        errors = JNull\<rparr>)"
  by (simp add: example_simps)

lemma example_missing_resolve:
  "resolveModule exampleEnv [''oak'', ''missing.ts''] False 0 =
     Inr (Some (\<lparr>meta = \<lparr>type = ''GitHub'', org = ''oakserver'', repo = ''oak'', name = ''oak'',
                          repoUrl = ''https://github.com/oakserver/oak''\<rparr>,
                  branchtag = JStr ''main'',
                  branchtags = Some [JStr ''main'', JStr ''v1'', JStr ''v1'', JStr ''v2''],
                  segments = [''oak'', ''missing.ts''],
                  breadcrumbs = Some [(''x'', ''/x''), (''oak'', ''/x/oak''),
                                      (''missing.ts'', ''/x/oak/missing.ts'')],
                  path = ''/missing.ts'', tree = JNull, readme = None, content = JNull,
                  sourceUrl = JNull, errors = JNull\<rparr>, 3))"
  by (simp add: example_simps)


subsection \<open>URL builders\<close>

text \<open>
  Claim C8. \<^verbatim>\<open>createRepoUrl\<close> and \<^verbatim>\<open>createBranchtagUrls\<close> are functions of the type, the
  organisation and the repository of the reference alone. For GitHub they give the
  repository URL under \<^verbatim>\<open>github.com\<close> and the two API endpoints, branches first, then tags;
  for GitLab the repository URL under \<^verbatim>\<open>gitlab.com\<close> and the one refs endpoint; for every
  other type both raise the invalid-module-type error.
\<close>

theorem url_builders:
  fixes m :: "'a moduleRef_scheme" and m' :: "'b moduleRef_scheme"
  shows "(type m = ''GitHub'' \<longrightarrow>
            createRepoUrl m = Inr (''https://github.com/'' @ org m @ ''/'' @ repo m) \<and>
            createBranchtagUrls m =
              Inr [''https://api.github.com/repos/'' @ org m @ ''/'' @ repo m @ ''/branches'',
                   ''https://api.github.com/repos/'' @ org m @ ''/'' @ repo m @ ''/tags'']) \<and>
         (type m = ''GitLab'' \<longrightarrow>
            createRepoUrl m = Inr (''https://gitlab.com/'' @ org m @ ''/'' @ repo m) \<and>
            createBranchtagUrls m = Inr [''https://gitlab.com/'' @ org m @ ''/'' @ repo m @ ''/refs'']) \<and>
         (type m \<noteq> ''GitHub'' \<and> type m \<noteq> ''GitLab'' \<longrightarrow>
            createRepoUrl m = Inl InvalidModuleType \<and> createBranchtagUrls m = Inl InvalidModuleType) \<and>
         (type m = type m' \<and> org m = org m' \<and> repo m = repo m' \<longrightarrow>
            createRepoUrl m = createRepoUrl m' \<and> createBranchtagUrls m = createBranchtagUrls m')"
  by (simp add: createRepoUrl_def createBranchtagUrls_def)

theorem url_builders_witness:
  "createRepoUrl \<lparr>type = ''GitHub'', org = ''oakserver'', repo = ''oak''\<rparr> =
     Inr ''https://github.com/oakserver/oak'' \<and>
   createBranchtagUrls \<lparr>type = ''GitHub'', org = ''oakserver'', repo = ''oak''\<rparr> =
     Inr [''https://api.github.com/repos/oakserver/oak/branches'',
          ''https://api.github.com/repos/oakserver/oak/tags''] \<and>
   createRepoUrl \<lparr>type = ''GitLab'', org = ''group'', repo = ''proj''\<rparr> =
     Inr ''https://gitlab.com/group/proj'' \<and>
   createBranchtagUrls \<lparr>type = ''GitLab'', org = ''group'', repo = ''proj''\<rparr> =
     Inr [''https://gitlab.com/group/proj/refs''] \<and>
   createRepoUrl \<lparr>type = ''Bitbucket'', org = ''team'', repo = ''bucket''\<rparr> = Inl InvalidModuleType \<and>
   createBranchtagUrls \<lparr>type = ''Bitbucket'', org = ''team'', repo = ''bucket''\<rparr> = Inl InvalidModuleType"
  using url_builders [of "\<lparr>type = ''GitHub'', org = ''oakserver'', repo = ''oak''\<rparr>"
      "\<lparr>type = ''GitHub'', org = ''oakserver'', repo = ''oak''\<rparr>"]
    url_builders [of "\<lparr>type = ''GitLab'', org = ''group'', repo = ''proj''\<rparr>"
      "\<lparr>type = ''GitLab'', org = ''group'', repo = ''proj''\<rparr>"]
    url_builders [of "\<lparr>type = ''Bitbucket'', org = ''team'', repo = ''bucket''\<rparr>"
      "\<lparr>type = ''Bitbucket'', org = ''team'', repo = ''bucket''\<rparr>"]
  by simp

subsection \<open>Branches and tags\<close>

lemma fetchRefs_concat:
  assumes "length outs = length urls"
    and "\<forall>i<length urls. \<exists>resp data.
           fetch env (k + i) (urls ! i) h = Some resp \<and> resp_json resp = Some data \<and>
           transformBranchtags data ty = Inr (outs ! i)"
  shows "fetchRefs env ty h urls refs k = Inr (refs @ concat outs, k + length urls)"
  using assms
proof (induction urls arbitrary: outs refs k)
  case Nil
  then show ?case by simp
next
  case (Cons url urls)
  then obtain out outs' where outs: "outs = out # outs'" by (cases outs) auto
  from Cons.prems(2) have "\<exists>resp data.
      fetch env (k + 0) ((url # urls) ! 0) h = Some resp \<and> resp_json resp = Some data \<and>
      transformBranchtags data ty = Inr (outs ! 0)" by blast
  then obtain resp data where h: "fetch env k url h = Some resp" "resp_json resp = Some data"
    "transformBranchtags data ty = Inr out" using outs by auto
  have len: "length outs' = length urls" using Cons.prems(1) outs by simp
  have rest: "\<forall>i<length urls. \<exists>resp data.
      fetch env (Suc k + i) (urls ! i) h = Some resp \<and> resp_json resp = Some data \<and>
      transformBranchtags data ty = Inr (outs' ! i)"
  proof (intro allI impI)
    fix i assume "i < length urls"
    then have "Suc i < length (url # urls)" by simp
    with Cons.prems(2) have "\<exists>resp data.
      fetch env (k + Suc i) ((url # urls) ! Suc i) h = Some resp \<and> resp_json resp = Some data \<and>
      transformBranchtags data ty = Inr (outs ! Suc i)" by blast
    then show "\<exists>resp data.
      fetch env (Suc k + i) (urls ! i) h = Some resp \<and> resp_json resp = Some data \<and>
      transformBranchtags data ty = Inr (outs' ! i)" using outs by simp
  qed
  from Cons.IH [OF len rest, of "refs @ out"] h outs show ?case
    by (simp add: fetchJson_def)
qed

text \<open>
  Claim C6. Let \<open>urls\<close> be the URLs of the reference, and let the request number \<open>k + i\<close>,
  to the \<open>i\<close>-th URL, be answered by JSON that the transformer takes to \<open>outs ! i\<close>.
  Then \<^verbatim>\<open>fetchModuleBranchtags\<close> returns the outputs concatenated in the order of the URLs
  (for GitHub the branches, then the tags, by claim C8), one request per URL made. Nothing
  is removed: a name occurs in the result as often as in all the outputs together.
\<close>

theorem fetchModuleBranchtags_concat:
  assumes "createBranchtagUrls m = Inr urls" and "length outs = length urls"
    and "\<forall>i<length urls. \<exists>resp data.
           fetch env (k + i) (urls ! i) (branchtagHeaders env m) = Some resp \<and>
           resp_json resp = Some data \<and> transformBranchtags data (type m) = Inr (outs ! i)"
  shows "fetchModuleBranchtags env m k = Inr (concat outs, k + length urls) \<and>
         (\<forall>x. count_list (concat outs) x = sum_list (map (\<lambda>out. count_list out x) outs))"
proof
  show "fetchModuleBranchtags env m k = Inr (concat outs, k + length urls)"
    using fetchRefs_concat [OF assms(2,3), of "[]"] assms(1) by (simp add: fetchModuleBranchtags_def)
  show "\<forall>x. count_list (concat outs) x = sum_list (map (\<lambda>out. count_list out x) outs)"
    by (induction outs) simp_all
qed

theorem fetchModuleBranchtags_concat_witness:
  "createBranchtagUrls \<lparr>type = ''GitHub'', org = ''oakserver'', repo = ''oak''\<rparr> =
     Inr [''https://api.github.com/repos/oakserver/oak/branches'',
          ''https://api.github.com/repos/oakserver/oak/tags''] \<and>
   transformBranchtags (JArr [JObj [(''name'', JStr ''main'')], JObj [(''name'', JStr ''v1'')]]) ''GitHub'' =
     Inr [JStr ''main'', JStr ''v1''] \<and>
   transformBranchtags (JArr [JObj [(''name'', JStr ''v1'')], JObj [(''name'', JStr ''v2'')]]) ''GitHub'' =
     Inr [JStr ''v1'', JStr ''v2''] \<and>
   fetchModuleBranchtags exampleEnv \<lparr>type = ''GitHub'', org = ''oakserver'', repo = ''oak''\<rparr> 0 =
     Inr ([JStr ''main'', JStr ''v1'', JStr ''v1'', JStr ''v2''], 2) \<and>
   count_list [JStr ''main'', JStr ''v1'', JStr ''v1'', JStr ''v2''] (JStr ''v1'') = 2"
proof -
  let ?m = "\<lparr>type = ''GitHub'', org = ''oakserver'', repo = ''oak''\<rparr>"
  let ?urls = "[''https://api.github.com/repos/oakserver/oak/branches'',
                ''https://api.github.com/repos/oakserver/oak/tags'']"
  let ?outs = "[[JStr ''main'', JStr ''v1''], [JStr ''v1'', JStr ''v2'']]"
  have u: "createBranchtagUrls ?m = Inr ?urls" by (simp add: createBranchtagUrls_def)
  have l: "length ?outs = length ?urls" by simp
  have t: "transformBranchtags (JArr [JObj [(''name'', JStr ''main'')], JObj [(''name'', JStr ''v1'')]]) ''GitHub'' =
     Inr [JStr ''main'', JStr ''v1'']"
    "transformBranchtags (JArr [JObj [(''name'', JStr ''v1'')], JObj [(''name'', JStr ''v2'')]]) ''GitHub'' =
     Inr [JStr ''v1'', JStr ''v2'']"
    by (simp_all add: transformBranchtags_def)
  have r: "\<forall>i<length ?urls. \<exists>resp data.
           fetch exampleEnv (0 + i) (?urls ! i) (branchtagHeaders exampleEnv ?m) = Some resp \<and>
           resp_json resp = Some data \<and> transformBranchtags data (type ?m) = Inr (?outs ! i)"
    using t by (simp add: less_Suc_eq exampleEnv_def exampleFetch_def branchtagHeaders_def
        exampleHeaders_def all_conj_distrib)
  from fetchModuleBranchtags_concat [OF u l r] u t show ?thesis by simp
qed

subsection \<open>Module metadata\<close>

text \<open>
  Claim C5. When segment 0 parses and the lookup finds no module of the parsed name, the
  call raises nothing and returns \<^verbatim>\<open>{ segments }\<close>: the segments as they came, and no other
  field.
\<close>

theorem fetchModuleMetadata_not_found:
  assumes "parseSegment0 segs = Inr (moduleName, bt0)" and "fetchModule env moduleName = None"
  shows "fetchModuleMetadata env segs isApi n = Inr (SegmentsOnly segs)"
  using assms by (simp add: fetchModuleMetadata_def resolveModule_def)

theorem fetchModuleMetadata_not_found_witness:
  "parseSegment0 [''nothing'', ''mod.ts''] = Inr (''nothing'', JNull) \<and>
   fetchModule exampleEnv ''nothing'' = None \<and>
   fetchModuleMetadata exampleEnv [''nothing'', ''mod.ts''] False 0 = Inr (SegmentsOnly [''nothing'', ''mod.ts''])"
proof -
  have p: "parseSegment0 [''nothing'', ''mod.ts''] = Inr (''nothing'', JNull)"
    by (simp add: parseSegment0_def segment0_def moduleRegex_def identChar_def)
  have f: "fetchModule exampleEnv ''nothing'' = None" by (simp add: exampleEnv_def)
  from fetchModuleMetadata_not_found [OF p f] p f show ?thesis by simp
qed

text \<open>
  With no segments and a GitLab module registered as \<^verbatim>\<open>undefined\<close>, the call in API mode
  makes no request and returns the full result of that module.
\<close>

lemma empty_segments_GitLab:
  assumes "fetchModule env ''undefined'' = Some m" and "type m = ''GitLab''"
  shows "fetchModuleMetadata env [] True n =
           Inr (Resolution
             \<lparr>meta = \<lparr>type = ''GitLab'', org = org m, repo = repo m, name = ''undefined'',
                      repoUrl = ''https://gitlab.com/'' @ org m @ ''/'' @ repo m\<rparr>,
              branchtag = JNull, branchtags = None, segments = [], breadcrumbs = None,
              path = ''/'', tree = JNull, readme = None, content = JNull, sourceUrl = JNull,
              errors = JNull\<rparr>)"
proof -
  have p: "parseSegment0 [] = Inr (''undefined'', JNull)"
    by (simp add: parseSegment0_def segment0_def moduleRegex_def identChar_def)
  have u: "createRepoUrl m = Inr (''https://gitlab.com/'' @ org m @ ''/'' @ repo m)"
    using assms(2) by (simp add: createRepoUrl_def)
  show ?thesis
    using assms
    by (simp add: fetchModuleMetadata_def resolveModule_def p u Let_def resolveBranchtag_def
        fetchTree_def readTree_def)
qed

text \<open>
  Claim C10. With no segments, the pattern is run on the string \<^verbatim>\<open>undefined\<close> and matches
  all of it: the parse does not fail, it gives the module name \<^verbatim>\<open>undefined\<close> and no
  branchtag. The lookup is asked for that name and its answer decides the call. When it
  finds nothing, the call returns \<^verbatim>\<open>{ segments }\<close>. When it finds a module, the call goes
  on with that module and does not return \<^verbatim>\<open>{ segments }\<close>: a module of a type other than
  GitHub and GitLab raises the invalid-module-type error, a GitLab module in API mode
  gives the full result of that module under the name \<^verbatim>\<open>undefined\<close>, and every full result
  carries the name \<^verbatim>\<open>undefined\<close> and the type, organisation and repository the lookup
  answered for that name.
\<close>

theorem empty_segments:
  "parseSegment0 [] = Inr (''undefined'', JNull) \<and>
   (fetchModule env ''undefined'' = None \<longrightarrow>
      fetchModuleMetadata env [] isApi n = Inr (SegmentsOnly [])) \<and>
   (\<forall>m. fetchModule env ''undefined'' = Some m \<longrightarrow>
      fetchModuleMetadata env [] isApi n \<noteq> Inr (SegmentsOnly []) \<and>
      (type m \<noteq> ''GitHub'' \<and> type m \<noteq> ''GitLab'' \<longrightarrow>
         fetchModuleMetadata env [] isApi n = Inl InvalidModuleType) \<and>
      (type m = ''GitLab'' \<longrightarrow>
         fetchModuleMetadata env [] True n =
           Inr (Resolution
             \<lparr>meta = \<lparr>type = ''GitLab'', org = org m, repo = repo m, name = ''undefined'',
                      repoUrl = ''https://gitlab.com/'' @ org m @ ''/'' @ repo m\<rparr>,
              branchtag = JNull, branchtags = None, segments = [], breadcrumbs = None,
              path = ''/'', tree = JNull, readme = None, content = JNull, sourceUrl = JNull,
              errors = JNull\<rparr>))) \<and>
   (\<forall>r. fetchModuleMetadata env [] isApi n = Inr (Resolution r) \<longrightarrow>
      name (meta r) = ''undefined'' \<and>
      (\<exists>m. fetchModule env ''undefined'' = Some m \<and> type (meta r) = type m \<and>
           org (meta r) = org m \<and> repo (meta r) = repo m))"
proof (intro conjI impI allI)
  show p: "parseSegment0 [] = Inr (''undefined'', JNull)"
    by (simp add: parseSegment0_def segment0_def moduleRegex_def identChar_def)
  {
    assume "fetchModule env ''undefined'' = None"
    with p show "fetchModuleMetadata env [] isApi n = Inr (SegmentsOnly [])"
      by (simp add: fetchModuleMetadata_def resolveModule_def)
  }
  {
    fix m assume m: "fetchModule env ''undefined'' = Some m"
    show "fetchModuleMetadata env [] isApi n \<noteq> Inr (SegmentsOnly [])"
    proof
      assume a: "fetchModuleMetadata env [] isApi n = Inr (SegmentsOnly [])"
      show False
      proof (cases "resolveModule env [] isApi n")
        case (Inl e)
        with a show False by (simp add: fetchModuleMetadata_def)
      next
        case (Inr x)
        show False
        proof (cases x)
          case None
          with Inr p m show False
            by (auto simp: resolveModule_def Let_def elim!: thenE_InrE split: if_splits)
        next
          case (Some rk)
          obtain r1 k where rk: "rk = (r1, k)" by (cases rk)
          from a Inr Some rk show False
            by (cases "fetchTree env r1 k")
              (auto simp: fetchModuleMetadata_def elim!: thenE_InrE)
        qed
      qed
    qed
    {
      assume "type m \<noteq> ''GitHub'' \<and> type m \<noteq> ''GitLab''"
      then have "createRepoUrl m = Inl InvalidModuleType" by (simp add: createRepoUrl_def)
      with p m show "fetchModuleMetadata env [] isApi n = Inl InvalidModuleType"
        by (simp add: fetchModuleMetadata_def resolveModule_def)
    }
    {
      assume "type m = ''GitLab''"
      with m show "fetchModuleMetadata env [] True n =
           Inr (Resolution
             \<lparr>meta = \<lparr>type = ''GitLab'', org = org m, repo = repo m, name = ''undefined'',
                      repoUrl = ''https://gitlab.com/'' @ org m @ ''/'' @ repo m\<rparr>,
              branchtag = JNull, branchtags = None, segments = [], breadcrumbs = None,
              path = ''/'', tree = JNull, readme = None, content = JNull, sourceUrl = JNull,
              errors = JNull\<rparr>)"
        by (rule empty_segments_GitLab)
    }
  }
  fix r assume res: "fetchModuleMetadata env [] isApi n = Inr (Resolution r)"
  then obtain r1 k r2 k' where
    1: "resolveModule env [] isApi n = Inr (Some (r1, k))" and
    2: "fetchTree env r1 k = Inr (r2, k')" and 3: "readTree env r2 k' = Inr r"
    unfolding fetchModuleMetadata_Resolution by blast
  from resolveModule_Some [OF 1] p obtain m url where
    m: "fetchModule env ''undefined'' = Some m"
    and mt: "meta r1 = \<lparr>type = type m, org = org m, repo = repo m, name = ''undefined'', repoUrl = url\<rparr>"
    by auto
  from fetchTree_frame [OF 2] readTree_frame [OF 3] have e: "meta r = meta r1" by simp
  show "name (meta r) = ''undefined''" by (simp add: e mt)
  show "\<exists>m. fetchModule env ''undefined'' = Some m \<and> type (meta r) = type m \<and>
      org (meta r) = org m \<and> repo (meta r) = repo m"
    using m by (simp add: e mt)
qed

text \<open>
  On the example lookup, which does not know \<^verbatim>\<open>undefined\<close>, and on the lookup that knows
  a GitLab module under that name.
\<close>

theorem empty_segments_witness:
  "parseSegment0 [] = Inr (''undefined'', JNull) \<and>
   fetchModule exampleEnv ''undefined'' = None \<and>
   fetchModuleMetadata exampleEnv [] False 0 = Inr (SegmentsOnly []) \<and>
   fetchModule undefinedEnv ''undefined'' =
     Some \<lparr>type = ''GitLab'', org = ''group'', repo = ''proj''\<rparr> \<and>
   fetchModuleMetadata undefinedEnv [] True 0 =
     Inr (Resolution
       \<lparr>meta = \<lparr>type = ''GitLab'', org = ''group'', repo = ''proj'', name = ''undefined'',
                repoUrl = ''https://gitlab.com/group/proj''\<rparr>,
        branchtag = JNull, branchtags = None, segments = [], breadcrumbs = None,
        path = ''/'', tree = JNull, readme = None, content = JNull, sourceUrl = JNull,
        errors = JNull\<rparr>) \<and>
   fetchModuleMetadata undefinedEnv [] True 0 \<noteq> Inr (SegmentsOnly [])"
proof -
  have f: "fetchModule exampleEnv ''undefined'' = None" by (simp add: exampleEnv_def)
  have g: "fetchModule undefinedEnv ''undefined'' =
      Some \<lparr>type = ''GitLab'', org = ''group'', repo = ''proj''\<rparr>"
    by (simp add: undefinedEnv_def)
  from empty_segments [of exampleEnv False 0] empty_segments [of undefinedEnv True 0] f g
  show ?thesis by simp
qed

text \<open>
  Claim C3, amended. Segment 0 gave no branchtag and the lookup found the module \<open>m\<close>.
  For a GitHub module, a result the call returns has as its branchtag the
  \<^verbatim>\<open>default_branch\<close> field of the answer to the first request of the call, the one to the
  repository endpoint with the GitHub headers. For a GitLab module the branchtag of the
  result is \<^verbatim>\<open>null\<close>. For a module of any other type the call returns no result: it raises
  the invalid-module-type error of \<^verbatim>\<open>createRepoUrl\<close> at line 89, so the default of line 108
  is never reached.
\<close>

theorem default_branchtag:
  assumes "parseSegment0 segs = Inr (moduleName, JNull)" and "fetchModule env moduleName = Some m"
  shows "(type m = ''GitHub'' \<longrightarrow>
            (\<forall>r. fetchModuleMetadata env segs isApi n = Inr (Resolution r) \<longrightarrow>
               (\<exists>resp data.
                  fetch env n (''https://api.github.com/repos/'' @ org m @ ''/'' @ repo m)
                    (Some (getGitHubHeaders env)) = Some resp \<and>
                  resp_json resp = Some data \<and>
                  getProp data ''default_branch'' = Inr (branchtag r)))) \<and>
         (type m = ''GitLab'' \<longrightarrow>
            (\<forall>r. fetchModuleMetadata env segs isApi n = Inr (Resolution r) \<longrightarrow> branchtag r = JNull)) \<and>
         (type m \<noteq> ''GitHub'' \<and> type m \<noteq> ''GitLab'' \<longrightarrow>
            fetchModuleMetadata env segs isApi n = Inl InvalidModuleType)"
proof (intro conjI impI allI)
  fix r
  assume gh: "type m = ''GitHub''" and res: "fetchModuleMetadata env segs isApi n = Inr (Resolution r)"
  from res obtain r1 k r2 k' where
    1: "resolveModule env segs isApi n = Inr (Some (r1, k))" and
    2: "fetchTree env r1 k = Inr (r2, k')" and 3: "readTree env r2 k' = Inr r"
    unfolding fetchModuleMetadata_Resolution by blast
  from resolveModule_Some [OF 1] assms obtain url k1 where
    mt: "meta r1 = \<lparr>type = type m, org = org m, repo = repo m, name = moduleName, repoUrl = url\<rparr>"
    and b: "resolveBranchtag env (meta r1) JNull n = Inr (branchtag r1, k1)" by auto
  from mt gh have "type (meta r1) = ''GitHub''" by simp
  from resolveBranchtag_GitHub [OF this b] mt fetchTree_frame [OF 2] readTree_frame [OF 3]
  show "\<exists>resp data.
          fetch env n (''https://api.github.com/repos/'' @ org m @ ''/'' @ repo m)
            (Some (getGitHubHeaders env)) = Some resp \<and>
          resp_json resp = Some data \<and> getProp data ''default_branch'' = Inr (branchtag r)"
    by auto
next
  fix r
  assume gl: "type m = ''GitLab''" and res: "fetchModuleMetadata env segs isApi n = Inr (Resolution r)"
  from res obtain r1 k r2 k' where
    1: "resolveModule env segs isApi n = Inr (Some (r1, k))" and
    2: "fetchTree env r1 k = Inr (r2, k')" and 3: "readTree env r2 k' = Inr r"
    unfolding fetchModuleMetadata_Resolution by blast
  from resolveModule_Some [OF 1] assms obtain url k1 where
    mt: "meta r1 = \<lparr>type = type m, org = org m, repo = repo m, name = moduleName, repoUrl = url\<rparr>"
    and b: "resolveBranchtag env (meta r1) JNull n = Inr (branchtag r1, k1)" by auto
  from mt gl have "type (meta r1) = ''GitLab''" by simp
  from resolveBranchtag_GitLab [OF this b] fetchTree_frame [OF 2] readTree_frame [OF 3]
  show "branchtag r = JNull" by simp
next
  assume "type m \<noteq> ''GitHub'' \<and> type m \<noteq> ''GitLab''"
  then have "createRepoUrl m = Inl InvalidModuleType" by (simp add: createRepoUrl_def)
  with assms show "fetchModuleMetadata env segs isApi n = Inl InvalidModuleType"
    by (simp add: fetchModuleMetadata_def resolveModule_def)
qed

theorem default_branchtag_witness:
  "parseSegment0 [''oak''] = Inr (''oak'', JNull) \<and>
   fetchModule exampleEnv ''oak'' = Some \<lparr>type = ''GitHub'', org = ''oakserver'', repo = ''oak''\<rparr> \<and>
   (\<exists>r resp data.
      fetchModuleMetadata exampleEnv [''oak''] False 0 = Inr (Resolution r) \<and>
      fetch exampleEnv 0 ''https://api.github.com/repos/oakserver/oak''
        (Some (getGitHubHeaders exampleEnv)) = Some resp \<and>
      resp_json resp = Some data \<and> getProp data ''default_branch'' = Inr (branchtag r) \<and>
      branchtag r = JStr ''main'') \<and>
   parseSegment0 [''proj''] = Inr (''proj'', JNull) \<and>
   fetchModule exampleEnv ''proj'' = Some \<lparr>type = ''GitLab'', org = ''group'', repo = ''proj''\<rparr> \<and>
   (\<exists>r. fetchModuleMetadata exampleEnv [''proj''] True 0 = Inr (Resolution r) \<and> branchtag r = JNull) \<and>
   parseSegment0 [''bucket''] = Inr (''bucket'', JNull) \<and>
   fetchModule exampleEnv ''bucket'' = Some \<lparr>type = ''Bitbucket'', org = ''team'', repo = ''bucket''\<rparr> \<and>
   fetchModuleMetadata exampleEnv [''bucket''] False 0 = Inl InvalidModuleType"
proof -
  have p1: "parseSegment0 [''oak''] = Inr (''oak'', JNull)"
    and p2: "parseSegment0 [''proj''] = Inr (''proj'', JNull)"
    and p3: "parseSegment0 [''bucket''] = Inr (''bucket'', JNull)"
    by (simp_all add: parseSegment0_def segment0_def moduleRegex_def identChar_def)
  have f1: "fetchModule exampleEnv ''oak'' = Some \<lparr>type = ''GitHub'', org = ''oakserver'', repo = ''oak''\<rparr>"
    and f2: "fetchModule exampleEnv ''proj'' = Some \<lparr>type = ''GitLab'', org = ''group'', repo = ''proj''\<rparr>"
    and f3: "fetchModule exampleEnv ''bucket'' = Some \<lparr>type = ''Bitbucket'', org = ''team'', repo = ''bucket''\<rparr>"
    by (simp_all add: exampleEnv_def)
  from default_branchtag [OF p1 f1, of False 0] example_oak
  have a: "\<exists>r resp data.
      fetchModuleMetadata exampleEnv [''oak''] False 0 = Inr (Resolution r) \<and>
      fetch exampleEnv 0 ''https://api.github.com/repos/oakserver/oak''
        (Some (getGitHubHeaders exampleEnv)) = Some resp \<and>
      resp_json resp = Some data \<and> getProp data ''default_branch'' = Inr (branchtag r) \<and>
      branchtag r = JStr ''main''"
    by auto
  from default_branchtag [OF p2 f2, of True 0] example_proj
  have b: "\<exists>r. fetchModuleMetadata exampleEnv [''proj''] True 0 = Inr (Resolution r) \<and> branchtag r = JNull"
    by auto
  from default_branchtag [OF p3 f3, of False 0]
  have c: "fetchModuleMetadata exampleEnv [''bucket''] False 0 = Inl InvalidModuleType" by simp
  from p1 p2 p3 f1 f2 f3 a b c show ?thesis by blast
qed

text \<open>
  A module of another provider type, registered with the lookup: the call raises, in API
  mode or not, and no result carries \<^verbatim>\<open>master\<close>.
\<close>

theorem other_provider_counterexample:
  "parseSegment0 [''bucket''] = Inr (''bucket'', JNull) \<and>
   map_option type (fetchModule exampleEnv ''bucket'') = Some ''Bitbucket'' \<and>
   fetchModuleMetadata exampleEnv [''bucket''] False 0 = Inl InvalidModuleType \<and>
   fetchModuleMetadata exampleEnv [''bucket''] True 0 = Inl InvalidModuleType"
  by (simp add: example_simps)

lemma tl_prefixes: "tl (prefixes xs) = map (\<lambda>i. take (Suc i) xs) [0..<length xs]"
proof (induction xs rule: rev_induct)
  case Nil
  then show ?case by simp
next
  case (snoc x xs)
  have "tl (prefixes (xs @ [x])) = tl (prefixes xs) @ [xs @ [x]]"
    by (cases "prefixes xs") simp_all
  also have "\<dots> = map (\<lambda>i. take (Suc i) xs) [0..<length xs] @ [xs @ [x]]"
    by (simp only: snoc.IH)
  also have "map (\<lambda>i. take (Suc i) xs) [0..<length xs] = map (\<lambda>i. take (Suc i) (xs @ [x])) [0..<length xs]"
    by (rule map_cong) simp_all
  finally show ?case by simp
qed

lemma makeBreadcrumbs_spec: "makeBreadcrumbs segs = spec_breadcrumbs segs"
proof -
  let ?sx = "''x'' # segs"
  have "spec_breadcrumbs segs =
      map (\<lambda>i. (last (take (Suc i) ?sx), ''/'' @ join ''/'' (take (Suc i) ?sx))) [0..<length ?sx]"
    unfolding spec_breadcrumbs_def tl_prefixes by (simp only: map_map comp_def)
  also have "\<dots> = map (\<lambda>i. (?sx ! i, ''/'' @ join ''/'' (take (i + 1) ?sx))) [0..<length ?sx]"
  proof (rule map_cong [OF refl])
    fix i assume "i \<in> set [0..<length ?sx]"
    then have i: "i < length ?sx" by auto
    then have "take (Suc i) ?sx = take i ?sx @ [?sx ! i]" by (rule take_Suc_conv_app_nth)
    then have "last (take (Suc i) ?sx) = ?sx ! i" by (simp only: last_snoc)
    then show "(last (take (Suc i) ?sx), ''/'' @ join ''/'' (take (Suc i) ?sx)) =
        (?sx ! i, ''/'' @ join ''/'' (take (i + 1) ?sx))" by simp
  qed
  finally show ?thesis by (simp add: makeBreadcrumbs_def Let_def)
qed

text \<open>
  Claim C9. Outside API mode, the breadcrumbs of a full result are those of the spec: one
  entry per non-empty prefix of \<^verbatim>\<open>["x", ...segments]\<close>, so one more than there are segments,
  the entry at index \<open>i\<close> pairing the segment at that index with the slash-joined link of
  the segments up to and including it.
\<close>

theorem breadcrumbs_per_prefix:
  assumes "fetchModuleMetadata env segs False n = Inr (Resolution r)"
  shows "breadcrumbs r = Some (spec_breadcrumbs segs) \<and>
         length (spec_breadcrumbs segs) = Suc (length segs) \<and>
         (\<forall>i \<le> length segs.
            spec_breadcrumbs segs ! i =
              ((''x'' # segs) ! i, ''/'' @ join ''/'' (take (Suc i) (''x'' # segs))))"
proof -
  from assms obtain r1 k r2 k' where
    1: "resolveModule env segs False n = Inr (Some (r1, k))" and
    2: "fetchTree env r1 k = Inr (r2, k')" and 3: "readTree env r2 k' = Inr r"
    unfolding fetchModuleMetadata_Resolution by blast
  from resolveModule_Some [OF 1] have "breadcrumbs r1 = Some (makeBreadcrumbs segs)" by auto
  with fetchTree_frame [OF 2] readTree_frame [OF 3]
  have "breadcrumbs r = Some (spec_breadcrumbs segs)" by (simp add: makeBreadcrumbs_spec)
  moreover have "length (spec_breadcrumbs segs) = Suc (length segs)"
    by (simp add: makeBreadcrumbs_spec [symmetric] makeBreadcrumbs_def Let_def)
  moreover have "\<forall>i \<le> length segs. spec_breadcrumbs segs ! i =
      ((''x'' # segs) ! i, ''/'' @ join ''/'' (take (Suc i) (''x'' # segs)))"
    unfolding makeBreadcrumbs_spec [symmetric] makeBreadcrumbs_def Let_def
    by (auto simp del: upt_Suc take_Suc_Cons simp: nth_map_upt less_Suc_eq_le)
  ultimately show ?thesis by blast
qed

text \<open>
  For the segments \<^verbatim>\<open>["foo", "bar", "baz"]\<close>, on a module that resolves.
\<close>

theorem breadcrumbs_per_prefix_witness:
  "fetchModuleMetadata exampleEnv [''foo'', ''bar'', ''baz''] False 0 =
     Inr (Resolution
       \<lparr>meta = \<lparr>type = ''GitLab'', org = ''group'', repo = ''proj'', name = ''foo'',
                repoUrl = ''https://gitlab.com/group/proj''\<rparr>,
        branchtag = JNull, branchtags = Some [JStr ''master'', JStr ''v1''],
        segments = [''foo'', ''bar'', ''baz''],
        breadcrumbs = Some [(''x'', ''/x''), (''foo'', ''/x/foo''), (''bar'', ''/x/foo/bar''),
                            (''baz'', ''/x/foo/bar/baz'')],
        path = ''/bar/baz'', tree = JNull, readme = None, content = JNull, sourceUrl = JNull,
        errors = JNull\<rparr>) \<and>
   spec_breadcrumbs [''foo'', ''bar'', ''baz''] =
     [(''x'', ''/x''), (''foo'', ''/x/foo''), (''bar'', ''/x/foo/bar''), (''baz'', ''/x/foo/bar/baz'')]"
  using breadcrumbs_per_prefix [OF example_foo] example_foo by simp

text \<open>
  Claim C4, amended. The steps before the tree request went through, leaving the locals
  \<open>r1\<close> after \<open>k\<close> requests; the module is a GitHub module; the answer to the
  repository-contents request is not ok, and its body decodes as JSON, to \<open>body\<close>. Then the
  call raises nothing: it returns the full result, \<open>r1\<close> with \<open>body\<close> in \<^verbatim>\<open>errors\<close>, where
  \<^verbatim>\<open>tree\<close>, \<^verbatim>\<open>readme\<close>, \<^verbatim>\<open>content\<close> and \<^verbatim>\<open>sourceUrl\<close> are \<^verbatim>\<open>null\<close>.
\<close>

theorem tree_request_failure_captured:
  assumes res: "resolveModule env segs isApi n = Inr (Some (r1, k))"
    and gh: "type (meta r1) = ''GitHub''" and url: "contentsUrl r1 = Inr url"
    and resp: "fetch env k url (Some (getGitHubHeaders env)) = Some resp"
      "\<not> resp_ok resp" "resp_json resp = Some body"
  shows "\<exists>r. fetchModuleMetadata env segs isApi n = Inr (Resolution r) \<and> r = r1\<lparr>errors := body\<rparr> \<and>
           errors r = body \<and> tree r = JNull \<and> readme r = None \<and> content r = JNull \<and>
           sourceUrl r = JNull"
proof -
  from resolveModule_Some [OF res] have n: "tree r1 = JNull" "readme r1 = None" "content r1 = JNull"
    "sourceUrl r1 = JNull" by auto
  have ft: "fetchTree env r1 k = Inr (r1\<lparr>errors := body\<rparr>, Suc k)"
    using gh url resp by (simp add: fetchTree_def requestHeaders_def)
  have rt: "readTree env (r1\<lparr>errors := body\<rparr>) (Suc k) = Inr (r1\<lparr>errors := body\<rparr>)"
    using n(1) by (simp add: readTree_null)
  have "fetchModuleMetadata env segs isApi n = Inr (Resolution (r1\<lparr>errors := body\<rparr>))"
    by (simp add: fetchModuleMetadata_def res ft rt)
  with n show ?thesis by simp
qed

theorem tree_request_failure_captured_witness:
  "fetchModuleMetadata exampleEnv [''oak'', ''missing.ts''] False 0 =
     Inr (Resolution
       \<lparr>meta = \<lparr>type = ''GitHub'', org = ''oakserver'', repo = ''oak'', name = ''oak'',
                repoUrl = ''https://github.com/oakserver/oak''\<rparr>,
        branchtag = JStr ''main'',
        branchtags = Some [JStr ''main'', JStr ''v1'', JStr ''v1'', JStr ''v2''],
        segments = [''oak'', ''missing.ts''],
        breadcrumbs = Some [(''x'', ''/x''), (''oak'', ''/x/oak''),
                            (''missing.ts'', ''/x/oak/missing.ts'')],
        path = ''/missing.ts'', tree = JNull, readme = None, content = JNull,
        sourceUrl = JNull, errors = JObj [(''message'', JStr ''Not Found'')]\<rparr>) \<and>
   map_option resp_ok (fetch exampleEnv 3
     ''https://api.github.com/repos/oakserver/oak/contents/missing.ts?ref=main''
     (Some (getGitHubHeaders exampleEnv))) = Some False"
proof -
  let ?r1 = "\<lparr>meta = \<lparr>type = ''GitHub'', org = ''oakserver'', repo = ''oak'', name = ''oak'',
                          repoUrl = ''https://github.com/oakserver/oak''\<rparr>,
                  branchtag = JStr ''main'',
                  branchtags = Some [JStr ''main'', JStr ''v1'', JStr ''v1'', JStr ''v2''],
                  segments = [''oak'', ''missing.ts''],
                  breadcrumbs = Some [(''x'', ''/x''), (''oak'', ''/x/oak''),
                                      (''missing.ts'', ''/x/oak/missing.ts'')],
                  path = ''/missing.ts'', tree = JNull, readme = None, content = JNull,
                  sourceUrl = JNull, errors = JNull\<rparr>"
  let ?resp = "\<lparr>resp_ok = False, resp_json = Some (JObj [(''message'', JStr ''Not Found'')]),
              resp_text = []\<rparr>"
  have gh: "type (meta ?r1) = ''GitHub''" by simp
  have url: "contentsUrl ?r1 =
      Inr ''https://api.github.com/repos/oakserver/oak/contents/missing.ts?ref=main''"
    by (simp add: contentsUrl_def)
  have f: "fetch exampleEnv 3 ''https://api.github.com/repos/oakserver/oak/contents/missing.ts?ref=main''
      (Some (getGitHubHeaders exampleEnv)) = Some ?resp"
    by (simp add: exampleEnv_def exampleFetch_def exampleHeaders_def)
  have nok: "\<not> resp_ok ?resp" and js: "resp_json ?resp = Some (JObj [(''message'', JStr ''Not Found'')])"
    by simp_all
  from tree_request_failure_captured [OF example_missing_resolve gh url f nok js] f
  show ?thesis by simp
qed

text \<open>
  The other half of the amended claim: when the body of the answer to the
  repository-contents request does not decode as JSON, the call raises the decode error,
  whether the answer is ok or not.
\<close>

lemma tree_request_undecodable:
  assumes res: "resolveModule env segs isApi n = Inr (Some (r1, k))"
    and gh: "type (meta r1) = ''GitHub''" and url: "contentsUrl r1 = Inr url"
    and resp: "fetch env k url (Some (getGitHubHeaders env)) = Some resp" "resp_json resp = None"
  shows "fetchModuleMetadata env segs isApi n = Inl SyntaxError"
proof -
  have "fetchTree env r1 k = Inl SyntaxError"
    using gh url resp by (simp add: fetchTree_def requestHeaders_def)
  then show ?thesis by (simp add: fetchModuleMetadata_def res)
qed

text \<open>
  An answer that is not ok and whose body is not JSON: \<^verbatim>\<open>resp.json()\<close> at line 136 rejects,
  and the call raises.
\<close>

theorem tree_request_failure_undecodable_counterexample:
  "map_option (\<lambda>resp. (resp_ok resp, resp_json resp))
     (fetch exampleEnv 3 ''https://api.github.com/repos/oakserver/oak/contents/broken.ts?ref=main''
        (Some (getGitHubHeaders exampleEnv))) = Some (False, None) \<and>
   fetchModuleMetadata exampleEnv [''oak'', ''broken.ts''] False 0 = Inl SyntaxError"
  by (simp add: example_simps)

subsection \<open>The sorted listing\<close>

lemma insertSorted_props:
  assumes tot: "\<forall>a b. lc a b \<le> 0 \<or> lc b a \<le> 0"
    and tr: "\<forall>a b c. lc a b \<le> 0 \<and> lc b c \<le> 0 \<longrightarrow> lc a c \<le> 0"
    and cmp: "\<forall>a\<in>insert x (set ys). \<forall>b\<in>insert x (set ys). cmp a b = Inr (lc (key a) (key b))"
    and srt: "sorted_wrt (\<lambda>a b. lc (key a) (key b) \<le> 0) ys"
  shows "\<exists>zs. insertSorted cmp x ys = Inr zs \<and> mset zs = add_mset x (mset ys) \<and>
           sorted_wrt (\<lambda>a b. lc (key a) (key b) \<le> 0) zs \<and>
           (\<forall>t. filter (\<lambda>e. key e = t) zs = filter (\<lambda>e. key e = t) (x # ys))"
  using cmp srt
proof (induction ys)
  case Nil
  then show ?case by simp
next
  case (Cons y ys)
  have c: "cmp x y = Inr (lc (key x) (key y))" using Cons.prems(1) by simp
  show ?case
  proof (cases "lc (key x) (key y) \<le> 0")
    case True
    have "\<forall>z\<in>set ys. lc (key x) (key z) \<le> 0"
    proof
      fix z assume "z \<in> set ys"
      with Cons.prems(2) have "lc (key y) (key z) \<le> 0" by simp
      with True tr show "lc (key x) (key z) \<le> 0" by blast
    qed
    with True c Cons.prems(2) show ?thesis by simp
  next
    case False
    have yx: "lc (key y) (key x) \<le> 0" using tot False by blast
    have ne: "key x \<noteq> key y" using tot False by metis
    have cmp': "\<forall>a\<in>insert x (set ys). \<forall>b\<in>insert x (set ys). cmp a b = Inr (lc (key a) (key b))"
      using Cons.prems(1) by simp
    have srt': "sorted_wrt (\<lambda>a b. lc (key a) (key b) \<le> 0) ys" using Cons.prems(2) by simp
    from Cons.IH [OF cmp' srt'] obtain zs where zs: "insertSorted cmp x ys = Inr zs"
      "mset zs = add_mset x (mset ys)" "sorted_wrt (\<lambda>a b. lc (key a) (key b) \<le> 0) zs"
      "\<forall>t. filter (\<lambda>e. key e = t) zs = filter (\<lambda>e. key e = t) (x # ys)" by blast
    have set: "set zs = insert x (set ys)" using zs(2) by (metis set_mset_add_mset_insert set_mset_mset)
    have "\<forall>z\<in>set zs. lc (key y) (key z) \<le> 0" using set yx Cons.prems(2) by auto
    then have s: "sorted_wrt (\<lambda>a b. lc (key a) (key b) \<le> 0) (y # zs)" using zs(3) by simp
    have f: "\<forall>t. filter (\<lambda>e. key e = t) (y # zs) = filter (\<lambda>e. key e = t) (x # y # ys)"
      using zs(4) ne by auto
    have "insertSorted cmp x (y # ys) = Inr (y # zs)" using c False zs(1) by simp
    moreover have "mset (y # zs) = add_mset x (mset (y # ys))" using zs(2) by simp
    ultimately show ?thesis using s f by blast
  qed
qed

lemma sortBy_props:
  assumes tot: "\<forall>a b. lc a b \<le> 0 \<or> lc b a \<le> 0"
    and tr: "\<forall>a b c. lc a b \<le> 0 \<and> lc b c \<le> 0 \<longrightarrow> lc a c \<le> 0"
    and cmp: "\<forall>a\<in>set xs. \<forall>b\<in>set xs. cmp a b = Inr (lc (key a) (key b))"
  shows "\<exists>zs. sortBy cmp xs = Inr zs \<and> mset zs = mset xs \<and>
           sorted_wrt (\<lambda>a b. lc (key a) (key b) \<le> 0) zs \<and>
           (\<forall>t. filter (\<lambda>e. key e = t) zs = filter (\<lambda>e. key e = t) xs)"
  using cmp
proof (induction xs)
  case Nil
  then show ?case by simp
next
  case (Cons x xs)
  then have "\<forall>a\<in>set xs. \<forall>b\<in>set xs. cmp a b = Inr (lc (key a) (key b))" by simp
  from Cons.IH [OF this] obtain ys where ys: "sortBy cmp xs = Inr ys" "mset ys = mset xs"
    "sorted_wrt (\<lambda>a b. lc (key a) (key b) \<le> 0) ys"
    "\<forall>t. filter (\<lambda>e. key e = t) ys = filter (\<lambda>e. key e = t) xs" by blast
  have set: "set ys = set xs" using ys(2) by (metis set_mset_mset)
  have cmp': "\<forall>a\<in>insert x (set ys). \<forall>b\<in>insert x (set ys). cmp a b = Inr (lc (key a) (key b))"
    using Cons.prems set by simp
  from insertSorted_props [OF tot tr cmp' ys(3)] obtain zs where zs: "insertSorted cmp x ys = Inr zs"
    "mset zs = add_mset x (mset ys)" "sorted_wrt (\<lambda>a b. lc (key a) (key b) \<le> 0) zs"
    "\<forall>t. filter (\<lambda>e. key e = t) zs = filter (\<lambda>e. key e = t) (x # ys)" by blast
  have "sortBy cmp (x # xs) = Inr zs" using ys(1) zs(1) by simp
  moreover have "mset zs = mset (x # xs)" using zs(2) ys(2) by simp
  moreover have "\<forall>t. filter (\<lambda>e. key e = t) zs = filter (\<lambda>e. key e = t) (x # xs)"
    using zs(4) ys(4) by simp
  ultimately show ?case using zs(3) by blast
qed

lemma compareType_typed:
  assumes "getProp a ''type'' = Inr (JStr s)" and "getProp b ''type'' = Inr (JStr t)"
  shows "compareType env a b = Inr (localeCompare env (typeField a) (typeField b))"
  using assms by (simp add: compareType_def typeField_def)

lemma readTree_array:
  assumes "tree r2 = JArr entries" and "sortBy (compareType env) entries = Inr ordered"
    and "readTree env r2 k = Inr r"
  shows "tree r = JArr ordered"
proof (cases "type (meta r2) = ''GitHub''")
  case False
  with assms show ?thesis by (auto simp: readTree_def)
next
  case gh: True
  with assms obtain found where f: "findReadme ordered = Inr found"
    by (auto simp: readTree_def Let_def elim!: thenE_InrE)
  show ?thesis
  proof (cases found)
    case None
    with assms gh f show ?thesis by (auto simp: readTree_def)
  next
    case (Some fl)
    with assms gh f show ?thesis
      by (cases "truthy fl")
        (auto simp: readTree_def Let_def elim!: thenE_InrE split: option.splits)
  qed
qed



text \<open>
  On a host whose collation is the order of the code units, the tree of the result is the
  listing in the lexical stable sort of its type fields, the one \<open>sort_key\<close> computes.
\<close>

lemma tree_sorted_lexically:
  assumes res: "resolveModule env segs isApi n = Inr (Some (r1, k))"
    and gh: "type (meta r1) = ''GitHub''" and url: "contentsUrl r1 = Inr url"
    and resp: "fetch env k url (Some (getGitHubHeaders env)) = Some resp"
      "resp_ok resp" "resp_json resp = Some (JArr entries)"
    and typed: "\<forall>e\<in>set entries. \<exists>t. getProp e ''type'' = Inr (JStr t)"
    and lex: "\<forall>a b. localeCompare env a b \<le> 0 \<longleftrightarrow> a \<le> b"
    and ret: "fetchModuleMetadata env segs isApi n = Inr (Resolution r)"
  shows "tree r = JArr (sort_key typeField entries)"
proof -
  have ft: "fetchTree env r1 k = Inr (r1\<lparr>tree := JArr entries\<rparr>, Suc k)"
    using gh url resp by (simp add: fetchTree_def requestHeaders_def)
  from ret have rt: "readTree env (r1\<lparr>tree := JArr entries\<rparr>) (Suc k) = Inr r"
    by (auto simp: fetchModuleMetadata_def res ft elim!: thenE_InrE)
  have tot: "\<forall>a b. localeCompare env a b \<le> 0 \<or> localeCompare env b a \<le> 0"
    using lex by (simp add: linear)
  have tr: "\<forall>a b c. localeCompare env a b \<le> 0 \<and> localeCompare env b c \<le> 0 \<longrightarrow> localeCompare env a c \<le> 0"
    using lex by auto
  have cmp: "\<forall>a\<in>set entries. \<forall>b\<in>set entries.
      compareType env a b = Inr (localeCompare env (typeField a) (typeField b))"
    using typed compareType_typed by blast
  from sortBy_props [OF tot tr cmp] obtain ordered where s:
    "sortBy (compareType env) entries = Inr ordered" "mset ordered = mset entries"
    "sorted_wrt (\<lambda>a b. localeCompare env (typeField a) (typeField b) \<le> 0) ordered"
    "\<forall>t. filter (\<lambda>e. typeField e = t) ordered = filter (\<lambda>e. typeField e = t) entries" by blast
  have "tree (r1\<lparr>tree := JArr entries\<rparr>) = JArr entries" by simp
  from readTree_array [OF this s(1) rt] have t: "tree r = JArr ordered" .
  have "sorted (map typeField ordered)"
    using s(3) lex by (simp add: sorted_map)
  moreover have "\<And>e. e \<in> set ordered \<Longrightarrow>
      filter (\<lambda>x. typeField e = typeField x) ordered = filter (\<lambda>x. typeField e = typeField x) entries"
  proof -
    fix e
    have "(\<lambda>x. typeField e = typeField x) = (\<lambda>x. typeField x = typeField e)" by auto
    then show "filter (\<lambda>x. typeField e = typeField x) ordered = filter (\<lambda>x. typeField e = typeField x) entries"
      using s(4) by simp
  qed
  ultimately have "sort_key typeField entries = ordered"
    using s(2) by (intro properties_for_sort_key) auto
  with t show ?thesis by simp
qed




end
